theory Spec2Isabelle
  imports Complex_Main "HOL-Library.AList" "HOL-Library.Log_Nat" "HOL-Library.Multiset"
begin

section \<open>Data model (types.ts)\<close>

text \<open>
  Strings are sequences of 8-bit code units. The identifier \<open>id\<close>, the field \<open>type\<close>,
  \<open>text\<close> and \<open>chapter\<close> of the source are spelled \<open>qid\<close>, \<open>qtype\<close>, \<open>qtext\<close> and
  \<open>qchapter\<close>, since the short names are taken in HOL.
\<close>

datatype Subject = PHYSICS | CHEMISTRY | MATHS

datatype QuestionType = MCQ | NUMERICAL

datatype QuestionStatus =
  NOT_VISITED | NOT_ANSWERED | ANSWERED | MARKED_FOR_REVIEW | ANSWERED_AND_MARKED

datatype Difficulty = Easy | Medium | Hard | Mixed

record Question =
  qid :: string
  qtext :: string
  options :: "string list option"
  correctAnswer :: string
  qtype :: QuestionType
  subject :: Subject
  qchapter :: string
  year :: string
  explanation :: string
  diagramSvg :: "string option"

record TestConfig =
  subjects :: "Subject list"
  chapters :: "string list"
  questionCount :: nat
  durationMinutes :: nat
  difficulty :: Difficulty

text \<open>\<open>selectedOption\<close> is \<open>string | null\<close>: \<open>None\<close> is \<open>null\<close>, and \<open>Some []\<close> is the
  empty string, which is a different value.\<close>

record UserResponse =
  questionId :: string
  selectedOption :: "string option"
  status :: QuestionStatus
  timeSpentSeconds :: nat

record TestHistoryItem =
  hid :: string
  date :: string
  hscore :: int
  hmaxScore :: nat
  haccuracy :: int
  topics :: string
  hconfig :: TestConfig

section \<open>JavaScript numbers and strings\<close>

text \<open>
  A JavaScript number is an IEEE-754 binary64 value. The finite ones are modelled as the
  rationals they denote; every arithmetic operation computes the exact result and rounds
  it to the nearest value with a 53-bit significand, ties to the even significand. The
  exponent range is not modelled: every quantity below is a quotient or product of
  question counts, far inside the normal range. Counts themselves are array lengths and
  are represented exactly.
\<close>

definition pow2 :: "int \<Rightarrow> rat" where
  "pow2 e = (if 0 \<le> e then 2 ^ nat e else 1 / 2 ^ nat (- e))"

text \<open>For \<open>x > 0\<close>, \<open>expo x\<close> is the exponent \<open>e\<close> with \<open>2^e \<le> x < 2^(e+1)\<close>.\<close>

definition expo :: "rat \<Rightarrow> int" where
  "expo x =
     (let (p, q) = quotient_of x; k = bitlen p - bitlen q
      in if pow2 k \<le> x then k else k - 1)"

definition round_even :: "rat \<Rightarrow> int" where
  "round_even x =
     (let f = \<lfloor>x\<rfloor>; d = x - of_int f
      in if d < 1 / 2 then f else if 1 / 2 < d then f + 1
         else if even f then f else f + 1)"

definition fl :: "rat \<Rightarrow> rat" where
  "fl x = (if x = 0 then 0
           else let e = expo \<bar>x\<bar> - 52 in of_int (round_even (x / pow2 e)) * pow2 e)"

definition fdiv :: "rat \<Rightarrow> rat \<Rightarrow> rat" where
  "fdiv x y = fl (x / y)"

definition fmul :: "rat \<Rightarrow> rat \<Rightarrow> rat" where
  "fmul x y = fl (x * y)"

text \<open>\<open>Math.round\<close>: the nearest integer, a tie going towards plus infinity.\<close>

definition Math_round :: "rat \<Rightarrow> int" where
  "Math_round x = \<lfloor>x + 1 / 2\<rfloor>"

text \<open>\<open>String.prototype.trim\<close> removes white space and line terminators from both ends.
  In the 8-bit range these are TAB, LF, VT, FF, CR, SPACE and NBSP.\<close>

definition isWhiteSpace :: "char \<Rightarrow> bool" where
  "isWhiteSpace c = (of_char c \<in> {9, 10, 11, 12, 13, 32, 160 :: nat})"

definition trim :: "string \<Rightarrow> string" where
  "trim s = rev (dropWhile isWhiteSpace (rev (dropWhile isWhiteSpace s)))"

text \<open>\<open>Number.prototype.toString\<close> on a non-negative integer.\<close>

fun digits :: "nat \<Rightarrow> string" where
  "digits n = (if n < 10 then [char_of (48 + n)]
               else digits (n div 10) @ [char_of (48 + n mod 10)])"

section \<open>Scoring (ResultScreen.tsx)\<close>

datatype AnswerStatus = Correct | Wrong | Skipped

record Tally =
  correct :: nat
  incorrect :: nat
  score :: int
  unattempted :: nat
  totalTime :: nat

definition tally0 :: Tally where
  "tally0 = \<lparr>correct = 0, incorrect = 0, score = 0, unattempted = 0, totalTime = 0\<rparr>"

text \<open>The answer check: exact string equality for MCQ, equality of the trimmed strings
  otherwise.\<close>

definition isCorrect :: "Question \<Rightarrow> string \<Rightarrow> bool" where
  "isCorrect q sel =
     (if qtype q = MCQ then sel = correctAnswer q
      else trim sel = trim (correctAnswer q))"

text \<open>The body of \<open>questions.map(q => ...)\<close>: it looks up the first response with the
  question's id, updates the counters and yields the question's status.\<close>

definition analyzeQuestion :: "UserResponse list \<Rightarrow> Question \<Rightarrow> Tally \<Rightarrow> Tally \<times> AnswerStatus" where
  "analyzeQuestion responses q t0 =
     (let res = find (\<lambda>r. questionId r = qid q) responses;
          timeSpent = (case res of None \<Rightarrow> 0 | Some r \<Rightarrow> timeSpentSeconds r);
          t = t0\<lparr>totalTime := totalTime t0 + timeSpent\<rparr>
      in case res of
           None \<Rightarrow> (t\<lparr>unattempted := unattempted t + 1\<rparr>, Skipped)
         | Some r \<Rightarrow>
             (case selectedOption r of
                None \<Rightarrow> (t\<lparr>unattempted := unattempted t + 1\<rparr>, Skipped)
              | Some sel \<Rightarrow>
                  if isCorrect q sel
                  then (t\<lparr>correct := correct t + 1, score := score t + 4\<rparr>, Correct)
                  else (t\<lparr>incorrect := incorrect t + 1, score := score t - 1\<rparr>, Wrong)))"

fun analyzeAll :: "UserResponse list \<Rightarrow> Question list \<Rightarrow> Tally \<Rightarrow> Tally \<times> AnswerStatus list" where
  "analyzeAll responses [] t = (t, [])"
| "analyzeAll responses (q # qs) t =
     (let (t1, a) = analyzeQuestion responses q t;
          (t2, as) = analyzeAll responses qs t1
      in (t2, a # as))"

text \<open>\<open>percentage\<close> is \<open>None\<close> for NaN, the value of \<open>0 / 0\<close>: with no questions both
  \<open>score\<close> and \<open>maxScore\<close> are 0. A NaN compares false with everything.\<close>

record ResultReport =
  tally :: Tally
  analyzedQuestions :: "AnswerStatus list"
  totalQuestions :: nat
  attempted :: nat
  maxScore :: nat
  accuracy :: int
  percentage :: "int option"

definition ResultScreen :: "Question list \<Rightarrow> UserResponse list \<Rightarrow> ResultReport" where
  "ResultScreen questions responses =
     (let (t, analyzed) = analyzeAll responses questions tally0;
          total = length questions;
          att = correct t + incorrect t;
          mx = total * 4
      in \<lparr>tally = t, analyzedQuestions = analyzed, totalQuestions = total,
          attempted = att, maxScore = mx,
          accuracy = (if 0 < att
                      then Math_round (fmul (fdiv (of_nat (correct t)) (of_nat att)) 100)
                      else 0),
          percentage = (if mx = 0 then None
                        else Some (Math_round (fmul (fdiv (of_int (score t)) (of_nat mx)) 100)))\<rparr>)"

datatype Verdict =
  Godlike | Excellent_Performance | Cautious_Sniper | Guesswork_Hazard
  | Critical_Condition | Balanced_Effort

definition percentage_gt :: "int option \<Rightarrow> int \<Rightarrow> bool" where
  "percentage_gt p n = (case p of None \<Rightarrow> False | Some v \<Rightarrow> n < v)"

definition percentage_lt :: "int option \<Rightarrow> int \<Rightarrow> bool" where
  "percentage_lt p n = (case p of None \<Rightarrow> False | Some v \<Rightarrow> v < n)"

definition getVerdict :: "ResultReport \<Rightarrow> Verdict" where
  "getVerdict r =
     (if score (tally r) = int (maxScore r) then Godlike
      else if 85 < accuracy r \<and> percentage_gt (percentage r) 70 then Excellent_Performance
      else if 85 < accuracy r \<and> percentage_lt (percentage r) 50 then Cautious_Sniper
      else if accuracy r < 60
              \<and> fmul (of_nat (totalQuestions r)) (fl (8 / 10)) < of_nat (attempted r)
           then Guesswork_Hazard
      else if score (tally r) < 0 then Critical_Condition
      else Balanced_Effort)"

section \<open>The history summary (App.tsx, handleTestFinish)\<close>

text \<open>The body of \<open>questions.forEach(q => ...)\<close> on the pair \<open>(correct, score)\<close>.\<close>

definition historyStep :: "UserResponse list \<Rightarrow> (nat \<times> int) \<Rightarrow> Question \<Rightarrow> (nat \<times> int)" where
  "historyStep userResponses acc q =
     (case find (\<lambda>res. questionId res = qid q) userResponses of
        None \<Rightarrow> acc
      | Some r \<Rightarrow>
          (case selectedOption r of
             None \<Rightarrow> acc
           | Some sel \<Rightarrow>
               if isCorrect q sel then (fst acc + 1, snd acc + 4)
               else (fst acc, snd acc - 1)))"

definition historyTally :: "Question list \<Rightarrow> UserResponse list \<Rightarrow> nat \<times> int" where
  "historyTally questions userResponses = foldl (historyStep userResponses) (0, 0) questions"

definition historyAccuracy :: "Question list \<Rightarrow> UserResponse list \<Rightarrow> int" where
  "historyAccuracy questions userResponses =
     (let n = length (filter (\<lambda>r. selectedOption r \<noteq> None) userResponses)
      in if 0 < n
         then Math_round (fmul (fdiv (of_nat (fst (historyTally questions userResponses))) (of_nat n)) 100)
         else 0)"

section \<open>The test session (TestInterface.tsx)\<close>

text \<open>
  The \<open>responses\<close> state is a plain object keyed by question id. It is modelled as an
  association list in insertion order, the order in which \<open>Object.values\<close> enumerates
  keys that are not array indices, such as the ids \<open>q-<time>-<n>\<close> that
  \<open>generateQuestions\<close> assigns: \<open>AList.update\<close> is the assignment \<open>obj[k] = v\<close>, and
  \<open>AList.map_entry k f\<close> is the guarded copy
  \<open>if (!prev[k]) return prev; return {...prev, [k]: f(prev[k])}\<close>.
\<close>

type_synonym ResponseTable = "(string \<times> UserResponse) list"

definition Object_values :: "ResponseTable \<Rightarrow> UserResponse list" where
  "Object_values tbl = map snd tbl"

text \<open>Array indexing \<open>xs[i]\<close>: \<open>None\<close> is \<open>undefined\<close>.\<close>

definition elem :: "'a list \<Rightarrow> nat \<Rightarrow> 'a option" where
  "elem xs i = (if i < length xs then Some (xs ! i) else None)"

definition blankResponse :: "string \<Rightarrow> UserResponse" where
  "blankResponse k =
     \<lparr>questionId = k, selectedOption = None, status = NOT_VISITED, timeSpentSeconds = 0\<rparr>"

definition initialResponses :: "Question list \<Rightarrow> ResponseTable" where
  "initialResponses qs =
     (let initial = foldl (\<lambda>tbl q. AList.update (qid q) (blankResponse (qid q)) tbl) [] qs
      in case qs of
           [] \<Rightarrow> initial
         | q0 # _ \<Rightarrow> AList.map_entry (qid q0) (\<lambda>r. r\<lparr>status := NOT_ANSWERED\<rparr>) initial)"

text \<open>
  The component's state. \<open>timerResponses\<close> is the \<open>responses\<close> value that the interval
  callback sees through \<open>handleFinishTest\<close>: the timer effect depends on
  \<open>[currentIndex, questions]\<close> only, so its closure is the one of the render in which
  \<open>currentIndex\<close> last changed (or of the first render). The palette and tab states play
  no part in the session logic and are left out.
\<close>

record TestInterface =
  currentIndex :: nat
  timeLeft :: int
  responses :: ResponseTable
  timerResponses :: ResponseTable

definition mountTestInterface :: "Question list \<Rightarrow> nat \<Rightarrow> TestInterface" where
  "mountTestInterface qs minutes =
     \<lparr>currentIndex = 0, timeLeft = int minutes * 60,
      responses = initialResponses qs, timerResponses = initialResponses qs\<rparr>"

definition visit :: "UserResponse \<Rightarrow> UserResponse" where
  "visit nextRes =
     nextRes\<lparr>status := (if status nextRes = NOT_VISITED then NOT_ANSWERED else status nextRes)\<rparr>"

definition navigateTo :: "Question list \<Rightarrow> nat \<Rightarrow> TestInterface \<Rightarrow> TestInterface" where
  "navigateTo qs index t =
     (case elem qs index of
        None \<Rightarrow> t
      | Some nextQ \<Rightarrow>
          (let rs = AList.map_entry (qid nextQ) visit (responses t)
           in t\<lparr>responses := rs, currentIndex := index,
                timerResponses := (if index = currentIndex t then timerResponses t else rs)\<rparr>))"

text \<open>The handlers below read \<open>questions[currentIndex]\<close>. The component renders no
  controls when that question is missing, so the handlers do nothing then.\<close>

definition selectStatus :: "QuestionStatus \<Rightarrow> QuestionStatus" where
  "selectStatus st = (if st = MARKED_FOR_REVIEW then ANSWERED_AND_MARKED else ANSWERED)"

definition handleOptionSelect :: "Question list \<Rightarrow> string \<Rightarrow> TestInterface \<Rightarrow> TestInterface" where
  "handleOptionSelect qs option t =
     (case elem qs (currentIndex t) of
        None \<Rightarrow> t
      | Some q \<Rightarrow>
          t\<lparr>responses :=
              AList.map_entry (qid q)
                (\<lambda>r. r\<lparr>selectedOption := Some option, status := selectStatus (status r)\<rparr>)
                (responses t)\<rparr>)"

definition handleNumericalInput :: "Question list \<Rightarrow> string \<Rightarrow> TestInterface \<Rightarrow> TestInterface" where
  "handleNumericalInput qs val t =
     (case elem qs (currentIndex t) of
        None \<Rightarrow> t
      | Some q \<Rightarrow>
          t\<lparr>responses :=
              AList.map_entry (qid q)
                (\<lambda>r. r\<lparr>selectedOption := Some val,
                       status := (if 0 < length val then selectStatus (status r)
                                  else NOT_ANSWERED)\<rparr>)
                (responses t)\<rparr>)"

text \<open>Truthiness of a \<open>string | null\<close>: neither \<open>null\<close> nor the empty string.\<close>

definition truthy :: "string option \<Rightarrow> bool" where
  "truthy v = (case v of None \<Rightarrow> False | Some s \<Rightarrow> s \<noteq> [])"

definition markStatus :: "UserResponse \<Rightarrow> QuestionStatus" where
  "markStatus currentRes =
     (let newStatus = MARKED_FOR_REVIEW;
          newStatus = (if truthy (selectedOption currentRes) then ANSWERED_AND_MARKED
                       else newStatus)
      in if status currentRes = MARKED_FOR_REVIEW then NOT_ANSWERED
         else if status currentRes = ANSWERED_AND_MARKED then ANSWERED
         else newStatus)"

definition handleMarkForReview :: "Question list \<Rightarrow> TestInterface \<Rightarrow> TestInterface" where
  "handleMarkForReview qs t =
     (case elem qs (currentIndex t) of
        None \<Rightarrow> t
      | Some q \<Rightarrow>
          (case map_of (responses t) (qid q) of
             None \<Rightarrow> t
           | Some currentRes \<Rightarrow>
               t\<lparr>responses :=
                   AList.map_entry (qid q) (\<lambda>r. r\<lparr>status := markStatus currentRes\<rparr>)
                     (responses t)\<rparr>))"

definition handleClearResponse :: "Question list \<Rightarrow> TestInterface \<Rightarrow> TestInterface" where
  "handleClearResponse qs t =
     (case elem qs (currentIndex t) of
        None \<Rightarrow> t
      | Some q \<Rightarrow>
          t\<lparr>responses :=
              AList.map_entry (qid q)
                (\<lambda>r. r\<lparr>selectedOption := None,
                       status := (if status r = ANSWERED_AND_MARKED then MARKED_FOR_REVIEW
                                  else NOT_ANSWERED)\<rparr>)
                (responses t)\<rparr>)"

text \<open>\<open>handleFinishTest\<close> calls \<open>onFinish\<close> with the values of the table; the model
  returns that argument.\<close>

definition handleFinishTest :: "TestInterface \<Rightarrow> UserResponse list" where
  "handleFinishTest t = Object_values (responses t)"

text \<open>
  One firing of the interval callback. The first updater counts \<open>timeLeft\<close> down and, when
  it finds \<open>prev <= 1\<close>, clears the interval and calls \<open>handleFinishTest\<close> of its closure;
  the second credits a second to the question at \<open>currentIndex\<close>. Each updater is taken
  to run once. The result is the new state and the argument of \<open>onFinish\<close>, if it was
  called.
\<close>

definition trackTime :: "Question list \<Rightarrow> TestInterface \<Rightarrow> ResponseTable" where
  "trackTime qs t =
     (case elem qs (currentIndex t) of
        None \<Rightarrow> responses t
      | Some currentQ \<Rightarrow>
          AList.map_entry (qid currentQ)
            (\<lambda>r. r\<lparr>timeSpentSeconds := timeSpentSeconds r + 1\<rparr>) (responses t))"

definition tick :: "Question list \<Rightarrow> TestInterface \<Rightarrow> TestInterface \<times> UserResponse list option" where
  "tick qs t =
     (if timeLeft t \<le> 1
      then (t\<lparr>timeLeft := 0, responses := trackTime qs t\<rparr>,
            Some (Object_values (timerResponses t)))
      else (t\<lparr>timeLeft := timeLeft t - 1, responses := trackTime qs t\<rparr>, None))"

section \<open>The application (App.tsx)\<close>

datatype AppView = Home | Config | Loading | Test | Result | History

text \<open>\<open>localStorage\<close> is the value under the key \<open>jee_genius_history\<close>; the JSON text is
  represented by the list it encodes.\<close>

record App =
  view :: AppView
  isFullSyllabus :: bool
  config :: TestConfig
  questions :: "Question list"
  app_responses :: "UserResponse list"
  error :: "string option"
  testHistory :: "TestHistoryItem list"
  localStorage :: "TestHistoryItem list option"

text \<open>What \<open>Date.now().toString()\<close> and \<open>new Date().toLocaleDateString()\<close> return
  at a call.\<close>

record Clock =
  now :: string
  localeDate :: string

definition saveHistory :: "TestHistoryItem list \<Rightarrow> App \<Rightarrow> App" where
  "saveHistory newHistory a =
     (let cappedHistory = take 50 newHistory
      in a\<lparr>testHistory := cappedHistory, localStorage := Some cappedHistory\<rparr>)"

definition historyItem :: "Clock \<Rightarrow> UserResponse list \<Rightarrow> App \<Rightarrow> TestHistoryItem" where
  "historyItem clk userResponses a =
     \<lparr>hid = now clk, date = localeDate clk,
      hscore = snd (historyTally (questions a) userResponses),
      hmaxScore = length (questions a) * 4,
      haccuracy = historyAccuracy (questions a) userResponses,
      topics = (if 0 < length (chapters (config a))
                then digits (length (chapters (config a))) @ '' Chapters''
                else ''Full Syllabus''),
      hconfig = config a\<rparr>"

definition handleTestFinish :: "Clock \<Rightarrow> UserResponse list \<Rightarrow> App \<Rightarrow> App" where
  "handleTestFinish clk userResponses a =
     (saveHistory (historyItem clk userResponses a # testHistory a)
        (a\<lparr>app_responses := userResponses\<rparr>))\<lparr>view := Result\<rparr>"








text \<open>
  The application together with the test interface it renders. \<open>App\<close> returns a
  \<open>TestInterface\<close> element only in the view \<open>test\<close>: in every other view the component
  is unmounted, its interval is cleared by the effect's cleanup, and none of its handlers
  can be reached.
\<close>

record System =
  app :: App
  testInterface :: "TestInterface option"

definition render :: "System \<Rightarrow> System" where
  "render s = (if view (app s) = Test then s else s\<lparr>testInterface := None\<rparr>)"

text \<open>
  \<open>startTest\<close> after \<open>generateQuestions\<close> has settled: \<open>Inl msg\<close> is a rejection with
  \<open>Error(msg)\<close>, \<open>Inr qs\<close> the generated questions. An empty result is thrown as an
  \<open>Error\<close> and handled like a rejection: the message goes to \<open>error\<close> and the view goes
  back to \<open>config\<close>.
\<close>

definition startTestFailed :: "string \<Rightarrow> App \<Rightarrow> App" where
  "startTestFailed msg a =
     a\<lparr>error := Some (if msg = [] then ''Something went wrong.'' else msg), view := Config\<rparr>"

definition startTest :: "TestConfig \<Rightarrow> string + Question list \<Rightarrow> System \<Rightarrow> System" where
  "startTest testConfig generated s =
     (let a = (app s)\<lparr>view := Loading, error := None\<rparr>;
          finalConfig = testConfig\<lparr>chapters := (if isFullSyllabus a then [] else chapters testConfig)\<rparr>
      in case generated of
           Inl msg \<Rightarrow> \<lparr>app = startTestFailed msg a, testInterface = None\<rparr>
         | Inr generatedQuestions \<Rightarrow>
             if length generatedQuestions = 0
             then \<lparr>app = startTestFailed ''No questions were generated. Please try again.'' a,
                   testInterface = None\<rparr>
             else \<lparr>app = a\<lparr>questions := generatedQuestions, config := finalConfig, view := Test\<rparr>,
                   testInterface =
                     Some (mountTestInterface generatedQuestions (durationMinutes finalConfig))\<rparr>)"

text \<open>The events of a running test, each handled completely before the next one.\<close>

datatype Event =
  Tick Clock | NavigateTo nat | OptionSelect string | NumericalInput string
  | MarkForReview | ClearResponse | SubmitTest Clock

datatype Signal = Expired "UserResponse list" | Submitted "UserResponse list"

text \<open>A user event other than the submission, sent to its handler.\<close>

fun userAction :: "Question list \<Rightarrow> Event \<Rightarrow> TestInterface \<Rightarrow> TestInterface" where
  "userAction qs (NavigateTo index) t = navigateTo qs index t"
| "userAction qs (OptionSelect option) t = handleOptionSelect qs option t"
| "userAction qs (NumericalInput val) t = handleNumericalInput qs val t"
| "userAction qs MarkForReview t = handleMarkForReview qs t"
| "userAction qs ClearResponse t = handleClearResponse qs t"
| "userAction qs _ t = t"

text \<open>
  One event. Without a mounted test interface there is nothing to receive it. A call of
  \<open>onFinish\<close>, from the interval callback or from the submit button, runs
  \<open>handleTestFinish\<close>, and the application is rendered again. The second component of the
  result records that call and which of the two made it.
\<close>

definition step :: "Event \<Rightarrow> System \<Rightarrow> System \<times> Signal option" where
  "step e s =
     (case testInterface s of
        None \<Rightarrow> (s, None)
      | Some t \<Rightarrow>
          (let qs = questions (app s)
           in case e of
                Tick clk \<Rightarrow>
                  (case tick qs t of
                     (t1, None) \<Rightarrow> (s\<lparr>testInterface := Some t1\<rparr>, None)
                   | (t1, Some userResponses) \<Rightarrow>
                       (render \<lparr>app = handleTestFinish clk userResponses (app s),
                                testInterface = Some t1\<rparr>,
                        Some (Expired userResponses)))
              | SubmitTest clk \<Rightarrow>
                  (render \<lparr>app = handleTestFinish clk (handleFinishTest t) (app s),
                           testInterface = Some t\<rparr>,
                   Some (Submitted (handleFinishTest t)))
              | _ \<Rightarrow> (s\<lparr>testInterface := Some (userAction qs e t)\<rparr>, None)))"

fun run :: "Event list \<Rightarrow> System \<Rightarrow> System \<times> Signal list" where
  "run [] s = (s, [])"
| "run (e # es) s =
     (let (s1, out) = step e s; (s2, outs) = run es s1
      in (s2, (case out of None \<Rightarrow> [] | Some sig \<Rightarrow> [sig]) @ outs))"

definition isTick :: "Event \<Rightarrow> bool" where
  "isTick e = (case e of Tick _ \<Rightarrow> True | _ \<Rightarrow> False)"

definition isSubmit :: "Event \<Rightarrow> bool" where
  "isSubmit e = (case e of SubmitTest _ \<Rightarrow> True | _ \<Rightarrow> False)"

definition isExpired :: "Signal \<Rightarrow> bool" where
  "isExpired sig = (case sig of Expired _ \<Rightarrow> True | _ \<Rightarrow> False)"

definition ticks :: "Event list \<Rightarrow> nat" where
  "ticks evs = length (filter isTick evs)"

definition totalTimeSpent :: "ResponseTable \<Rightarrow> nat" where
  "totalTimeSpent tbl = sum_list (map timeSpentSeconds (Object_values tbl))"

text \<open>The status that the analysis gives a question, and the number of questions with
  a given status.\<close>

definition grade :: "UserResponse list \<Rightarrow> Question \<Rightarrow> AnswerStatus" where
  "grade rs q = snd (analyzeQuestion rs q tally0)"

definition countStatus :: "AnswerStatus \<Rightarrow> UserResponse list \<Rightarrow> Question list \<Rightarrow> nat" where
  "countStatus a rs qs = length (filter (\<lambda>q. grade rs q = a) qs)"

text \<open>The invariant of a mounted session: the current index is in range and every
  question has its entry in the table.\<close>

definition wellFormed :: "Question list \<Rightarrow> TestInterface \<Rightarrow> bool" where
  "wellFormed qs t = (currentIndex t < length qs \<and> qid ` set qs \<subseteq> fst ` set (responses t))"

section \<open>The specification's formulas\<close>

text \<open>The accuracy as the specification words it, \<open>round(correct / attempted * 100)\<close>
  and 0 without attempts, with the quotient taken exactly.\<close>

definition spec_accuracy :: "nat \<Rightarrow> nat \<Rightarrow> int" where
  "spec_accuracy c a = (if a = 0 then 0 else round (of_nat c / of_nat a * 100 :: rat))"

text \<open>The verdict as the specification words it: an ordered list of bands, of which
  the first whose condition holds gives the verdict, and a default.\<close>

definition spec_bands :: "((ResultReport \<Rightarrow> bool) \<times> Verdict) list" where
  "spec_bands =
     [(\<lambda>r. score (tally r) = int (maxScore r), Godlike),
      (\<lambda>r. 85 < accuracy r \<and> percentage_gt (percentage r) 70, Excellent_Performance),
      (\<lambda>r. 85 < accuracy r \<and> percentage_lt (percentage r) 50, Cautious_Sniper),
      (\<lambda>r. accuracy r < 60
            \<and> fmul (of_nat (totalQuestions r)) (fl (8 / 10)) < of_nat (attempted r),
       Guesswork_Hazard),
      (\<lambda>r. score (tally r) < 0, Critical_Condition)]"

definition spec_classify :: "ResultReport \<Rightarrow> Verdict" where
  "spec_classify r =
     (case find (\<lambda>b. fst b r) spec_bands of
        Some b \<Rightarrow> snd b
      | None \<Rightarrow> Balanced_Effort)"

section \<open>Example inputs\<close>

definition exampleQuestion :: "nat \<Rightarrow> QuestionType \<Rightarrow> string \<Rightarrow> Question" where
  "exampleQuestion i ty answer =
     \<lparr>qid = ''q-'' @ digits i, qtext = ''?'',
      options = (if ty = MCQ then Some [''A'', ''B'', ''C'', ''D''] else None),
      correctAnswer = answer, qtype = ty, subject = PHYSICS, qchapter = ''Optics'',
      year = ''2023 Shift 1'', explanation = [], diagramSvg = None\<rparr>"

definition exampleResponse :: "nat \<Rightarrow> string option \<Rightarrow> UserResponse" where
  "exampleResponse i sel =
     \<lparr>questionId = ''q-'' @ digits i, selectedOption = sel,
      status = (if sel = None then NOT_ANSWERED else ANSWERED), timeSpentSeconds = 3\<rparr>"

definition exampleConfig :: "nat \<Rightarrow> TestConfig" where
  "exampleConfig minutes =
     \<lparr>subjects = [PHYSICS, CHEMISTRY, MATHS], chapters = [], questionCount = 15,
      durationMinutes = minutes, difficulty = Mixed\<rparr>"

definition exampleApp :: App where
  "exampleApp =
     \<lparr>view = Home, isFullSyllabus = False, config = exampleConfig 45, questions = [],
      app_responses = [], error = None, testHistory = [], localStorage = None\<rparr>"

definition exampleClock :: Clock where
  "exampleClock = \<lparr>now = ''1700000000000'', localeDate = ''11/14/2023''\<rparr>"

text \<open>A test of two questions and one minute, as \<open>startTest\<close> sets it up.\<close>

definition exampleQuestions :: "Question list" where
  "exampleQuestions = [exampleQuestion 0 MCQ ''1'', exampleQuestion 1 NUMERICAL ''5.4'']"

definition exampleSystem :: System where
  "exampleSystem =
     startTest (exampleConfig 1) (Inr exampleQuestions) \<lparr>app = exampleApp, testInterface = None\<rparr>"

definition exampleEvents :: "Event list" where
  "exampleEvents =
     [Tick exampleClock, OptionSelect ''1'', NavigateTo 1, Tick exampleClock,
      NumericalInput ''5.4'']"

definition exampleTicks :: "Event list" where
  "exampleTicks = replicate 60 (Tick exampleClock)"

text \<open>Fifteen questions with ten correct answers, three wrong ones and two left open;
  forty questions with 23 correct answers and 17 wrong ones; five questions, all
  answered wrongly.\<close>

definition answerSheet :: "nat \<Rightarrow> nat \<Rightarrow> nat \<Rightarrow> UserResponse list" where
  "answerSheet n c w =
     map (\<lambda>i. exampleResponse i
                (if i < c then Some ''1'' else if i < c + w then Some ''2'' else None))
       [0..<n]"

definition questionSheet :: "nat \<Rightarrow> Question list" where
  "questionSheet n = map (\<lambda>i. exampleQuestion i MCQ ''1'') [0..<n]"



text \<open>Sixty ticks with a move to the second question after the first tick.\<close>

definition exampleTicksWithMove :: "Event list" where
  "exampleTicksWithMove = Tick exampleClock # NavigateTo 1 # replicate 59 (Tick exampleClock)"

text \<open>A test of a single question, as \<open>startTest\<close> sets it up, and the report on the
  application state after a run of events.\<close>

definition singleQuestionSystem :: "Question \<Rightarrow> System" where
  "singleQuestionSystem q =
     startTest (exampleConfig 1) (Inr [q]) \<lparr>app = exampleApp, testInterface = None\<rparr>"

definition liveResponses :: "System \<Rightarrow> UserResponse list option" where
  "liveResponses s = map_option handleFinishTest (testInterface s)"

definition finalReport :: "System \<Rightarrow> ResultReport" where
  "finalReport s = ResultScreen (questions (app s)) (app_responses (app s))"


section \<open>Rounding to double precision\<close>

lemma pow2_powi: "pow2 e = 2 powi e"
  by (simp add: pow2_def power_int_def field_simps)

lemma pow2_pos: "0 < pow2 e"
  by (simp add: pow2_def)

lemma pow2_diff: "pow2 (m - n) = pow2 m / pow2 n"
  by (simp add: pow2_powi power_int_diff)

lemma pow2_nonneg_exp: "0 \<le> e \<Longrightarrow> pow2 e = 2 ^ nat e"
  by (simp add: pow2_def)

lemma round_even_error: "\<bar>of_int (round_even y) - y\<bar> \<le> 1 / 2"
proof -
  have "of_int \<lfloor>y\<rfloor> \<le> y" "y < of_int \<lfloor>y\<rfloor> + 1"
    by linarith+
  then show ?thesis
    by (auto simp add: round_even_def Let_def)
qed

lemma expo_lower:
  assumes "0 < x"
  shows "pow2 (expo x) \<le> x"
proof -
  obtain p q where pq: "quotient_of x = (p, q)"
    by (cases "quotient_of x")
  then have q: "0 < q" and x: "x = of_int p / of_int q"
    by (simp_all add: quotient_of_denom_pos quotient_of_div)
  from assms q x have p: "0 < p"
    by (simp add: zero_less_divide_iff)
  let ?k = "bitlen p - bitlen q"
  show ?thesis
  proof (cases "pow2 ?k \<le> x")
    case True
    then show ?thesis by (simp add: expo_def pq)
  next
    case False
    then have e: "expo x = ?k - 1" by (simp add: expo_def pq)
    from bitlen_bounds [OF p] have lo: "2 ^ nat (bitlen p - 1) \<le> p" by simp
    from bitlen_bounds [OF q] have hi: "q < 2 ^ nat (bitlen q)" by simp
    have bp: "1 \<le> bitlen p" and bq: "0 \<le> bitlen q"
      using p by (simp_all add: bitlen_alt_def bitlen_nonneg)
    have "pow2 (?k - 1) = pow2 (bitlen p - 1) / pow2 (bitlen q)"
      using pow2_diff [of "bitlen p - 1" "bitlen q"] by (simp add: algebra_simps)
    also have "\<dots> = 2 ^ nat (bitlen p - 1) / 2 ^ nat (bitlen q)"
      using bp bq by (simp add: pow2_nonneg_exp)
    also have "\<dots> \<le> of_int p / 2 ^ nat (bitlen q)"
    proof -
      from lo have "(of_int (2 ^ nat (bitlen p - 1)) :: rat) \<le> of_int p"
        by (simp only: of_int_le_iff)
      then show ?thesis by (simp add: divide_right_mono)
    qed
    also have "\<dots> \<le> of_int p / of_int q"
    proof -
      from hi have "(of_int q :: rat) \<le> of_int (2 ^ nat (bitlen q))"
        by (simp only: of_int_le_iff)
      then have "(of_int q :: rat) \<le> 2 ^ nat (bitlen q)" by simp
      moreover have "(0::rat) < of_int q" "(0::rat) \<le> of_int p" using q p by simp_all
      ultimately show ?thesis by (simp add: divide_left_mono)
    qed
    finally have "pow2 (?k - 1) \<le> x" by (simp only: x)
    then show ?thesis by (simp only: e)
  qed
qed

lemma fl_error: "\<bar>fl x - x\<bar> \<le> \<bar>x\<bar> / 2 ^ 53"
proof (cases "x = 0")
  case True
  then show ?thesis by (simp add: fl_def)
next
  case False
  define e where "e = expo \<bar>x\<bar> - 52"
  define P where "P = pow2 e"
  have P: "0 < P" by (simp add: P_def pow2_pos)
  have flx: "fl x = of_int (round_even (x / P)) * P"
    using False by (simp add: fl_def e_def P_def Let_def)
  have "fl x - x = (of_int (round_even (x / P)) - x / P) * P"
    using P by (simp add: flx field_simps)
  then have "\<bar>fl x - x\<bar> = \<bar>of_int (round_even (x / P)) - x / P\<bar> * P"
    using P by (simp add: abs_mult)
  also have "\<dots> \<le> 1 / 2 * P"
    using round_even_error [of "x / P"] P by (simp add: mult_right_mono)
  finally have err: "\<bar>fl x - x\<bar> \<le> P / 2" by simp
  have "pow2 (expo \<bar>x\<bar>) \<le> \<bar>x\<bar>"
    using False by (intro expo_lower) simp
  moreover have "pow2 (expo \<bar>x\<bar>) = P * 2 ^ 52"
    using pow2_diff [of "expo \<bar>x\<bar>" 52] by (simp add: P_def e_def pow2_def)
  ultimately have "P * 2 ^ 52 \<le> \<bar>x\<bar>" by simp
  then have "P / 2 \<le> \<bar>x\<bar> / 2 ^ 53" by simp
  with err show ?thesis by linarith
qed


text \<open>The percentage of \<open>c\<close> out of \<open>a\<close> in double precision is within a tiny distance of
  the exact percentage.\<close>

lemma percent_error:
  assumes "0 < a" and "c \<le> a"
  shows "\<bar>fmul (fdiv (of_nat c) (of_nat a)) 100 - of_nat c / of_nat a * 100\<bar> \<le> 1 / 2 ^ 40"
proof -
  define q :: rat where "q = of_nat c / of_nat a"
  define y1 where "y1 = fl q"
  define y2 where "y2 = fl (y1 * 100)"
  define d :: rat where "d = 1 / 2 ^ 53"
  have d: "0 \<le> d" "d \<le> 1" "300 * d \<le> 1 / 2 ^ 40"
    by (simp_all add: d_def)
  have q: "0 \<le> q" "q \<le> 1"
    using assms by (simp_all add: q_def)
  have "\<bar>y1 - q\<bar> \<le> \<bar>q\<bar> * d"
    using fl_error [of q] by (simp add: y1_def d_def)
  moreover have "\<bar>q\<bar> * d \<le> 1 * d"
    using q d(1) by (intro mult_right_mono) simp_all
  ultimately have e1: "\<bar>y1 - q\<bar> \<le> d"
    by simp
  with q d have y1: "\<bar>y1\<bar> \<le> 2"
    by linarith
  have "\<bar>y2 - y1 * 100\<bar> \<le> \<bar>y1 * 100\<bar> * d"
    using fl_error [of "y1 * 100"] by (simp add: y2_def d_def)
  moreover have "\<bar>y1 * 100\<bar> * d \<le> 200 * d"
  proof (rule mult_right_mono)
    show "\<bar>y1 * 100\<bar> \<le> 200" using y1 by (simp add: abs_mult)
    show "0 \<le> d" by (rule d(1))
  qed
  ultimately have e2: "\<bar>y2 - y1 * 100\<bar> \<le> 200 * d"
    by linarith
  have "y1 * 100 - q * 100 = (y1 - q) * 100"
    by (simp add: algebra_simps)
  then have "\<bar>y1 * 100 - q * 100\<bar> = \<bar>y1 - q\<bar> * 100"
    by (simp only: abs_mult)
  with e1 have e1': "\<bar>y1 * 100 - q * 100\<bar> \<le> 100 * d"
    by linarith
  have "\<bar>y2 - q * 100\<bar> \<le> \<bar>y2 - y1 * 100\<bar> + \<bar>y1 * 100 - q * 100\<bar>"
    by linarith
  with e1' e2 have "\<bar>y2 - q * 100\<bar> \<le> 300 * d"
    by linarith
  from this d(3) have "\<bar>y2 - q * 100\<bar> \<le> 1 / 2 ^ 40"
    by (rule order_trans)
  then show ?thesis
    by (simp only: y2_def y1_def q_def fmul_def fdiv_def)
qed

lemma Math_round_close:
  assumes "\<bar>y - x\<bar> \<le> 1 / 2 ^ 40"
  shows "\<bar>Math_round y - round x\<bar> \<le> 1"
proof -
  define u where "u = y + 1 / 2"
  define v where "v = x + 1 / 2"
  have "(1::rat) / 2 ^ 40 \<le> 1"
    by simp
  with assms have "u \<le> v + 1" "v - 1 \<le> u"
    unfolding u_def v_def by linarith+
  then have "\<lfloor>u\<rfloor> \<le> \<lfloor>v + 1\<rfloor>" "\<lfloor>v - 1\<rfloor> \<le> \<lfloor>u\<rfloor>"
    by (simp_all only: floor_mono)
  moreover have "\<lfloor>v + 1\<rfloor> = \<lfloor>v\<rfloor> + 1" "\<lfloor>v - 1\<rfloor> = \<lfloor>v\<rfloor> - 1"
    by simp_all
  ultimately have "\<bar>\<lfloor>u\<rfloor> - \<lfloor>v\<rfloor>\<bar> \<le> 1"
    by linarith
  then show ?thesis
    by (simp only: Math_round_def round_def u_def v_def)
qed

lemma percent_accuracy:
  assumes "0 < a" and "c \<le> a"
  shows "\<bar>Math_round (fmul (fdiv (of_nat c) (of_nat a)) 100) - spec_accuracy c a\<bar> \<le> 1"
    and "0 \<le> Math_round (fmul (fdiv (of_nat c) (of_nat a)) 100)"
    and "Math_round (fmul (fdiv (of_nat c) (of_nat a)) 100) \<le> 100"
proof -
  define y where "y = fmul (fdiv (of_nat c) (of_nat a)) 100"
  define q :: rat where "q = of_nat c / of_nat a"
  have err: "\<bar>y - q * 100\<bar> \<le> 1 / 2 ^ 40"
    using percent_error [OF assms] by (simp only: y_def q_def)
  have "spec_accuracy c a = round (q * 100)"
    using assms(1) by (simp add: spec_accuracy_def q_def)
  with Math_round_close [OF err]
  show "\<bar>Math_round (fmul (fdiv (of_nat c) (of_nat a)) 100) - spec_accuracy c a\<bar> \<le> 1"
    by (simp only: y_def)
  have q: "0 \<le> q" "q \<le> 1"
    using assms by (simp_all add: q_def)
  have "(1::rat) / 2 ^ 40 \<le> 1 / 4"
    by simp
  with err q have "0 \<le> y + 1 / 2" "y + 1 / 2 < 101"
    by linarith+
  then have "0 \<le> Math_round y" "Math_round y \<le> 100"
    by (simp_all add: Math_round_def floor_less_iff)
  then show "0 \<le> Math_round (fmul (fdiv (of_nat c) (of_nat a)) 100)"
    and "Math_round (fmul (fdiv (of_nat c) (of_nat a)) 100) \<le> 100"
    by (simp_all only: y_def)
qed

section \<open>The timer\<close>

lemma view_handleTestFinish: "view (handleTestFinish clk p a) = Result"
  by (simp add: handleTestFinish_def)

lemma render_finished:
  "render \<lparr>app = handleTestFinish clk p a, testInterface = x\<rparr> =
     \<lparr>app = handleTestFinish clk p a, testInterface = None\<rparr>"
  by (simp add: render_def view_handleTestFinish)

lemma step_unmounted: "testInterface s = None \<Longrightarrow> step e s = (s, None)"
  by (simp add: step_def)

lemma run_unmounted: "testInterface s = None \<Longrightarrow> run evs s = (s, [])"
  by (induction evs) (simp_all add: step_unmounted)

lemma tick_snd: "snd (tick qs t) = (if timeLeft t \<le> 1 then Some (Object_values (timerResponses t)) else None)"
  by (simp add: tick_def)

lemma tick_timeLeft: "timeLeft (fst (tick qs t)) = (if timeLeft t \<le> 1 then 0 else timeLeft t - 1)"
  by (simp add: tick_def)

lemma tick_responses: "responses (fst (tick qs t)) = trackTime qs t"
  by (simp add: tick_def)

lemma tick_currentIndex: "currentIndex (fst (tick qs t)) = currentIndex t"
  by (simp add: tick_def)

lemma step_Tick:
  "testInterface s = Some t \<Longrightarrow>
   step (Tick clk) s =
     (if timeLeft t \<le> 1
      then (\<lparr>app = handleTestFinish clk (Object_values (timerResponses t)) (app s), testInterface = None\<rparr>,
            Some (Expired (Object_values (timerResponses t))))
      else (s\<lparr>testInterface := Some (fst (tick (questions (app s)) t))\<rparr>, None))"
  by (simp add: step_def tick_def render_finished)

lemma step_Submit:
  "testInterface s = Some t \<Longrightarrow>
   step (SubmitTest clk) s =
     (\<lparr>app = handleTestFinish clk (handleFinishTest t) (app s), testInterface = None\<rparr>,
      Some (Submitted (handleFinishTest t)))"
  by (simp add: step_def render_finished)

lemma step_user:
  "testInterface s = Some t \<Longrightarrow> \<not> isTick e \<Longrightarrow> \<not> isSubmit e \<Longrightarrow>
   step e s = (s\<lparr>testInterface := Some (userAction (questions (app s)) e t)\<rparr>, None)"
  by (cases e) (simp_all add: step_def isTick_def isSubmit_def)

lemma userAction_timeLeft: "timeLeft (userAction qs e t) = timeLeft t"
  by (cases e)
     (simp_all add: navigateTo_def handleOptionSelect_def handleNumericalInput_def
        handleMarkForReview_def handleClearResponse_def Let_def split: option.splits)


lemma run_Cons:
  "run (e # es) s =
     (fst (run es (fst (step e s))),
      (case snd (step e s) of None \<Rightarrow> [] | Some sig \<Rightarrow> [sig]) @ snd (run es (fst (step e s))))"
  by (simp add: Let_def split: prod.splits)

lemma ticks_Cons: "ticks (e # es) = (if isTick e then 1 else 0) + ticks es"
  by (simp add: ticks_def)

lemma isTick_Tick: "isTick (Tick clk)"
  by (simp add: isTick_def)

lemma step_cases [consumes 1, case_names expire count submit user]:
  assumes "testInterface s = Some t"
  obtains (expire) clk where "e = Tick clk" "timeLeft t \<le> 1"
      "step e s = (\<lparr>app = handleTestFinish clk (Object_values (timerResponses t)) (app s), testInterface = None\<rparr>,
                  Some (Expired (Object_values (timerResponses t))))"
    | (count) clk where "e = Tick clk" "1 < timeLeft t"
      "step e s = (s\<lparr>testInterface := Some (fst (tick (questions (app s)) t))\<rparr>, None)"
    | (submit) clk where "e = SubmitTest clk"
      "step e s = (\<lparr>app = handleTestFinish clk (handleFinishTest t) (app s), testInterface = None\<rparr>,
                  Some (Submitted (handleFinishTest t)))"
    | (user) "\<not> isTick e" "\<not> isSubmit e"
      "step e s = (s\<lparr>testInterface := Some (userAction (questions (app s)) e t)\<rparr>, None)"
proof (cases "isTick e")
  case True
  then obtain clk where e: "e = Tick clk" by (cases e) (simp_all add: isTick_def)
  show ?thesis
  proof (cases "timeLeft t \<le> 1")
    case True
    with e assms show ?thesis using expire by (simp add: step_Tick)
  next
    case False
    with e assms show ?thesis using count by (simp add: step_Tick)
  qed
next
  case False
  show ?thesis
  proof (cases "isSubmit e")
    case True
    then obtain clk where e: "e = SubmitTest clk" by (cases e) (simp_all add: isSubmit_def)
    with assms show ?thesis using submit by (simp add: step_Submit)
  next
    case nsub: False
    with False assms show ?thesis using user by (simp add: step_user)
  qed
qed

lemma run_alive:
  "testInterface s = Some t \<Longrightarrow> list_all (\<lambda>e. \<not> isSubmit e) evs \<Longrightarrow> int (ticks evs) < timeLeft t \<Longrightarrow>
   \<exists>t'. testInterface (fst (run evs s)) = Some t' \<and> timeLeft t' = timeLeft t - int (ticks evs)
        \<and> snd (run evs s) = []"
proof (induction evs arbitrary: s t)
  case Nil
  then show ?case by (simp add: ticks_def)
next
  case (Cons e es)
  from Cons.prems(1) show ?case
  proof (cases rule: step_cases [where e = e])
    case (expire clk)
    with Cons.prems show ?thesis by (simp add: ticks_Cons isTick_Tick)
  next
    case (count clk)
    let ?s1 = "s\<lparr>testInterface := Some (fst (tick (questions (app s)) t))\<rparr>"
    let ?t1 = "fst (tick (questions (app s)) t)"
    have tl: "timeLeft ?t1 = timeLeft t - 1" using count by (simp add: tick_timeLeft)
    have "\<exists>t'. testInterface (fst (run es ?s1)) = Some t' \<and> timeLeft t' = timeLeft ?t1 - int (ticks es)
        \<and> snd (run es ?s1) = []"
      using Cons.prems count tl by (intro Cons.IH) (simp_all add: ticks_Cons isTick_Tick)
    with count tl show ?thesis by (auto simp add: run_Cons ticks_Cons isTick_Tick)
  next
    case (submit clk)
    with Cons.prems show ?thesis by (simp add: isSubmit_def)
  next
    case user
    let ?t1 = "userAction (questions (app s)) e t"
    let ?s1 = "s\<lparr>testInterface := Some ?t1\<rparr>"
    have "\<exists>t'. testInterface (fst (run es ?s1)) = Some t' \<and> timeLeft t' = timeLeft ?t1 - int (ticks es)
        \<and> snd (run es ?s1) = []"
      using Cons.prems user by (intro Cons.IH) (simp_all add: ticks_Cons userAction_timeLeft)
    with user show ?thesis by (simp add: run_Cons ticks_Cons userAction_timeLeft)
  qed
qed

lemma run_timeLeft_nonneg:
  "testInterface s = Some t \<Longrightarrow> 0 \<le> timeLeft t \<Longrightarrow> testInterface (fst (run evs s)) = Some t' \<Longrightarrow>
   0 \<le> timeLeft t'"
proof (induction evs arbitrary: s t)
  case Nil
  then show ?case by simp
next
  case (Cons e es)
  from Cons.prems(1) show ?case
  proof (cases rule: step_cases [where e = e])
    case (expire clk)
    with Cons.prems show ?thesis by (simp add: run_Cons run_unmounted)
  next
    case (count clk)
    let ?t1 = "fst (tick (questions (app s)) t)"
    let ?s1 = "s\<lparr>testInterface := Some ?t1\<rparr>"
    have "0 \<le> timeLeft ?t1" using count by (simp add: tick_timeLeft)
    moreover have "testInterface (fst (run es ?s1)) = Some t'"
      using Cons.prems(3) count by (simp add: run_Cons)
    ultimately show ?thesis using Cons.IH [of ?s1 ?t1] by simp
  next
    case (submit clk)
    with Cons.prems show ?thesis by (simp add: run_Cons run_unmounted)
  next
    case user
    let ?t1 = "userAction (questions (app s)) e t"
    let ?s1 = "s\<lparr>testInterface := Some ?t1\<rparr>"
    have "0 \<le> timeLeft ?t1" using Cons.prems(2) by (simp add: userAction_timeLeft)
    moreover have "testInterface (fst (run es ?s1)) = Some t'"
      using Cons.prems(3) user by (simp add: run_Cons)
    ultimately show ?thesis using Cons.IH [of ?s1 ?t1] by simp
  qed
qed

lemma run_signals_le1: "length (snd (run evs s)) \<le> 1"
proof (induction evs arbitrary: s)
  case Nil
  then show ?case by simp
next
  case (Cons e es)
  show ?case
  proof (cases "testInterface s")
    case None
    then show ?thesis by (simp add: run_unmounted del: run.simps)
  next
    case (Some t)
    then show ?thesis
    proof (cases rule: step_cases [where e = e])
      case (expire clk)
      then show ?thesis by (simp add: run_Cons run_unmounted)
    next
      case (count clk)
      then show ?thesis using Cons.IH by (simp add: run_Cons)
    next
      case (submit clk)
      then show ?thesis by (simp add: run_Cons run_unmounted)
    next
      case user
      then show ?thesis using Cons.IH by (simp add: run_Cons)
    qed
  qed
qed

lemma run_expires:
  "testInterface s = Some t \<Longrightarrow> list_all (\<lambda>e. \<not> isSubmit e) evs \<Longrightarrow>
   max 1 (timeLeft t) \<le> int (ticks evs) \<Longrightarrow>
   \<exists>p. snd (run evs s) = [Expired p] \<and> testInterface (fst (run evs s)) = None"
proof (induction evs arbitrary: s t)
  case Nil
  then show ?case by (simp add: ticks_def)
next
  case (Cons e es)
  from Cons.prems(1) show ?case
  proof (cases rule: step_cases [where e = e])
    case (expire clk)
    then show ?thesis by (simp add: run_Cons run_unmounted)
  next
    case (count clk)
    let ?t1 = "fst (tick (questions (app s)) t)"
    let ?s1 = "s\<lparr>testInterface := Some ?t1\<rparr>"
    have tl: "timeLeft ?t1 = timeLeft t - 1" using count by (simp add: tick_timeLeft)
    have "\<exists>p. snd (run es ?s1) = [Expired p] \<and> testInterface (fst (run es ?s1)) = None"
      using Cons.prems count tl by (intro Cons.IH [of ?s1 ?t1]) (simp_all add: ticks_Cons isTick_Tick)
    with count show ?thesis by (simp add: run_Cons)
  next
    case (submit clk)
    with Cons.prems show ?thesis by (simp add: isSubmit_def)
  next
    case user
    let ?t1 = "userAction (questions (app s)) e t"
    let ?s1 = "s\<lparr>testInterface := Some ?t1\<rparr>"
    have "\<exists>p. snd (run es ?s1) = [Expired p] \<and> testInterface (fst (run es ?s1)) = None"
      using Cons.prems user by (intro Cons.IH [of ?s1 ?t1]) (simp_all add: ticks_Cons userAction_timeLeft)
    with user show ?thesis by (simp add: run_Cons)
  qed
qed

section \<open>Time accounting\<close>

lemma totalTimeSpent_Cons: "totalTimeSpent (p # ps) = timeSpentSeconds (snd p) + totalTimeSpent ps"
  by (simp add: totalTimeSpent_def Object_values_def)

lemma totalTimeSpent_map_entry_same:
  "(\<And>r. timeSpentSeconds (f r) = timeSpentSeconds r) \<Longrightarrow>
   totalTimeSpent (AList.map_entry k f tbl) = totalTimeSpent tbl"
  by (induction tbl) (simp_all add: totalTimeSpent_Cons)

lemma totalTimeSpent_map_entry_inc:
  "k \<in> fst ` set tbl \<Longrightarrow> (\<And>r. timeSpentSeconds (f r) = timeSpentSeconds r + 1) \<Longrightarrow>
   totalTimeSpent (AList.map_entry k f tbl) = totalTimeSpent tbl + 1"
  by (induction tbl) (auto simp add: totalTimeSpent_Cons)

lemma elem_Some: "i < length xs \<Longrightarrow> elem xs i = Some (xs ! i)"
  by (simp add: elem_def)

lemma elem_SomeD: "elem xs i = Some x \<Longrightarrow> i < length xs \<and> x = xs ! i"
  by (simp add: elem_def split: if_splits)

lemma userAction_keys: "fst ` set (responses (userAction qs e t)) = fst ` set (responses t)"
  by (cases e)
     (simp_all add: navigateTo_def handleOptionSelect_def handleNumericalInput_def
        handleMarkForReview_def handleClearResponse_def Let_def dom_map_entry split: option.splits)

lemma userAction_currentIndex:
  "currentIndex t < length qs \<Longrightarrow> currentIndex (userAction qs e t) < length qs"
  by (cases e)
     (auto simp add: navigateTo_def handleOptionSelect_def handleNumericalInput_def
        handleMarkForReview_def handleClearResponse_def Let_def dest: elem_SomeD split: option.splits)

lemma userAction_wellFormed: "wellFormed qs t \<Longrightarrow> wellFormed qs (userAction qs e t)"
  by (simp add: wellFormed_def userAction_keys userAction_currentIndex)

lemma userAction_totalTimeSpent:
  "totalTimeSpent (responses (userAction qs e t)) = totalTimeSpent (responses t)"
  by (cases e)
     (simp_all add: navigateTo_def handleOptionSelect_def handleNumericalInput_def
        handleMarkForReview_def handleClearResponse_def Let_def visit_def
        totalTimeSpent_map_entry_same split: option.splits)

lemma trackTime_keys: "fst ` set (trackTime qs t) = fst ` set (responses t)"
  by (simp add: trackTime_def dom_map_entry split: option.splits)

lemma tick_wellFormed: "wellFormed qs t \<Longrightarrow> wellFormed qs (fst (tick qs t))"
  by (simp add: wellFormed_def tick_responses tick_currentIndex trackTime_keys)

lemma tick_totalTimeSpent:
  "wellFormed qs t \<Longrightarrow>
   totalTimeSpent (responses (fst (tick qs t))) = totalTimeSpent (responses t) + 1"
proof -
  assume wf: "wellFormed qs t"
  let ?k = "qid (qs ! currentIndex t)"
  from wf have "?k \<in> fst ` set (responses t)"
    by (auto simp add: wellFormed_def)
  then have "totalTimeSpent (AList.map_entry ?k (\<lambda>r. r\<lparr>timeSpentSeconds := timeSpentSeconds r + 1\<rparr>) (responses t))
      = totalTimeSpent (responses t) + 1"
    by (rule totalTimeSpent_map_entry_inc) simp
  with wf show ?thesis
    by (simp add: wellFormed_def tick_responses trackTime_def elem_Some)
qed

lemma tick_credits_current:
  "currentIndex t < length qs \<Longrightarrow>
   map_of (responses (fst (tick qs t))) k =
     (if k = qid (qs ! currentIndex t)
      then map_option (\<lambda>r. r\<lparr>timeSpentSeconds := timeSpentSeconds r + 1\<rparr>) (map_of (responses t) k)
      else map_of (responses t) k)"
  by (simp add: tick_responses trackTime_def elem_Some map_of_map_entry split: option.splits)

lemma run_accounting:
  "testInterface s = Some t \<Longrightarrow> wellFormed (questions (app s)) t \<Longrightarrow>
   testInterface (fst (run evs s)) = Some t' \<Longrightarrow>
   totalTimeSpent (responses t') = totalTimeSpent (responses t) + ticks evs
   \<and> wellFormed (questions (app s)) t'"
proof (induction evs arbitrary: s t)
  case Nil
  then show ?case by (simp add: ticks_def)
next
  case (Cons e es)
  from Cons.prems(1) show ?case
  proof (cases rule: step_cases [where e = e])
    case (expire clk)
    with Cons.prems show ?thesis by (simp add: run_Cons run_unmounted)
  next
    case (count clk)
    let ?t1 = "fst (tick (questions (app s)) t)"
    let ?s1 = "s\<lparr>testInterface := Some ?t1\<rparr>"
    have "testInterface (fst (run es ?s1)) = Some t'"
      using Cons.prems(3) count by (simp add: run_Cons)
    then have "totalTimeSpent (responses t') = totalTimeSpent (responses ?t1) + ticks es
       \<and> wellFormed (questions (app ?s1)) t'"
      using Cons.prems(2) by (intro Cons.IH [of ?s1 ?t1]) (simp_all add: tick_wellFormed)
    with count Cons.prems(2) show ?thesis
      by (simp add: ticks_Cons isTick_Tick tick_totalTimeSpent)
  next
    case (submit clk)
    with Cons.prems show ?thesis by (simp add: run_Cons run_unmounted)
  next
    case user
    let ?t1 = "userAction (questions (app s)) e t"
    let ?s1 = "s\<lparr>testInterface := Some ?t1\<rparr>"
    have "testInterface (fst (run es ?s1)) = Some t'"
      using Cons.prems(3) user by (simp add: run_Cons)
    then have "totalTimeSpent (responses t') = totalTimeSpent (responses ?t1) + ticks es
       \<and> wellFormed (questions (app ?s1)) t'"
      using Cons.prems(2) by (intro Cons.IH [of ?s1 ?t1]) (simp_all add: userAction_wellFormed)
    with user show ?thesis
      by (simp add: ticks_Cons userAction_totalTimeSpent)
  qed
qed

text \<open>The initial table.\<close>

lemma update_blank_keys:
  "fst ` set (foldl (\<lambda>tbl q. AList.update (qid q) (blankResponse (qid q)) tbl) tbl0 qs) =
     fst ` set tbl0 \<union> qid ` set qs"
  by (induction qs arbitrary: tbl0) (auto simp add: dom_update)

lemma map_of_update_blank:
  "map_of (foldl (\<lambda>tbl q. AList.update (qid q) (blankResponse (qid q)) tbl) tbl0 qs) k =
     (if k \<in> qid ` set qs then Some (blankResponse k) else map_of tbl0 k)"
  by (induction qs arbitrary: tbl0) (auto simp add: update_conv')

lemma totalTimeSpent_update:
  "totalTimeSpent tbl = 0 \<Longrightarrow> timeSpentSeconds v = 0 \<Longrightarrow> totalTimeSpent (AList.update k v tbl) = 0"
  by (induction tbl) (auto simp add: totalTimeSpent_Cons totalTimeSpent_def Object_values_def)

lemma totalTimeSpent_update_blank:
  "totalTimeSpent tbl0 = 0 \<Longrightarrow>
   totalTimeSpent (foldl (\<lambda>tbl q. AList.update (qid q) (blankResponse (qid q)) tbl) tbl0 qs) = 0"
  by (induction qs arbitrary: tbl0) (simp_all add: totalTimeSpent_update blankResponse_def)

lemma initialResponses_keys: "fst ` set (initialResponses qs) = qid ` set qs"
  by (cases qs) (simp_all add: initialResponses_def Let_def dom_map_entry update_blank_keys del: foldl_Cons)

lemma initialResponses_totalTimeSpent: "totalTimeSpent (initialResponses qs) = 0"
proof -
  have "totalTimeSpent ([] :: ResponseTable) = 0"
    by (simp add: totalTimeSpent_def Object_values_def)
  then show ?thesis
    by (cases qs)
       (simp_all add: initialResponses_def Let_def totalTimeSpent_map_entry_same
          totalTimeSpent_update_blank del: foldl_Cons)
qed

lemma mount_wellFormed: "qs \<noteq> [] \<Longrightarrow> wellFormed qs (mountTestInterface qs minutes)"
  by (simp add: wellFormed_def mountTestInterface_def initialResponses_keys)

lemma map_of_initialResponses:
  "map_of (initialResponses qs) k =
     (if k \<in> qid ` set qs
      then Some ((blankResponse k)\<lparr>status := (if k = qid (hd qs) then NOT_ANSWERED else NOT_VISITED)\<rparr>)
      else None)"
proof (cases qs)
  case Nil
  then show ?thesis by (simp add: initialResponses_def)
next
  case (Cons q0 rest)
  let ?initial = "foldl (\<lambda>tbl q. AList.update (qid q) (blankResponse (qid q)) tbl) [] qs"
  have init: "initialResponses qs = AList.map_entry (qid q0) (\<lambda>r. r\<lparr>status := NOT_ANSWERED\<rparr>) ?initial"
    using Cons by (simp add: initialResponses_def Let_def del: foldl_Cons)
  have look: "map_of ?initial k' = (if k' \<in> qid ` set qs then Some (blankResponse k') else None)" for k'
    by (simp add: map_of_update_blank)
  have blank: "(blankResponse k)\<lparr>status := NOT_VISITED\<rparr> = blankResponse k"
    by (simp add: blankResponse_def)
  have q0: "qid q0 \<in> qid ` set qs" "hd qs = q0"
    using Cons by simp_all
  show ?thesis
    unfolding init map_of_map_entry by (simp add: look q0 blank)
qed

section \<open>Claims about the timer\<close>

text \<open>
  C5. In a session of \<open>totalSeconds = durationMinutes * 60\<close> seconds that has not been
  submitted, after \<open>N < totalSeconds\<close> ticks the remaining time is \<open>totalSeconds - N\<close>.
  The remaining time of a running session is never negative, and no tick makes it so. A
  run emits at most one expired signal; it emits exactly one once the ticks reach
  \<open>totalSeconds\<close> (at least one tick), the test interface is unmounted by it, and no
  later event, tick or other, has any effect.
\<close>

theorem timer_countdown:
  assumes "testInterface s = Some (mountTestInterface qs minutes)"
  shows "(list_all (\<lambda>e. \<not> isSubmit e) evs \<and> int (ticks evs) < int minutes * 60 \<longrightarrow>
            (\<exists>t. testInterface (fst (run evs s)) = Some t
                \<and> timeLeft t = int minutes * 60 - int (ticks evs)))
       \<and> (\<forall>t. testInterface (fst (run evs s)) = Some t \<longrightarrow>
              0 \<le> timeLeft t \<and> 0 \<le> timeLeft (fst (tick (questions (app s)) t)))
       \<and> length (filter isExpired (snd (run evs s))) \<le> 1
       \<and> (list_all (\<lambda>e. \<not> isSubmit e) evs \<and> max 1 (int minutes * 60) \<le> int (ticks evs) \<longrightarrow>
            length (filter isExpired (snd (run evs s))) = 1
            \<and> testInterface (fst (run evs s)) = None)
       \<and> (testInterface (fst (run evs s)) = None \<longrightarrow>
            run later (fst (run evs s)) = (fst (run evs s), []))"
proof -
  let ?t0 = "mountTestInterface qs minutes"
  have tl0: "timeLeft ?t0 = int minutes * 60"
    by (simp add: mountTestInterface_def)
  have a: "\<exists>t. testInterface (fst (run evs s)) = Some t
              \<and> timeLeft t = int minutes * 60 - int (ticks evs)"
    if "list_all (\<lambda>e. \<not> isSubmit e) evs" "int (ticks evs) < int minutes * 60"
    using run_alive [OF assms that(1)] that(2) tl0 by auto
  have b: "0 \<le> timeLeft t \<and> 0 \<le> timeLeft (fst (tick (questions (app s)) t))"
    if "testInterface (fst (run evs s)) = Some t" for t
  proof -
    have "0 \<le> timeLeft ?t0" by (simp add: tl0)
    from run_timeLeft_nonneg [OF assms this that] show ?thesis
      by (simp add: tick_timeLeft)
  qed
  have "length (filter isExpired (snd (run evs s))) \<le> length (snd (run evs s))"
    by (rule length_filter_le)
  also have "\<dots> \<le> 1" by (rule run_signals_le1)
  finally have c: "length (filter isExpired (snd (run evs s))) \<le> 1" .
  have d: "length (filter isExpired (snd (run evs s))) = 1
            \<and> testInterface (fst (run evs s)) = None"
    if "list_all (\<lambda>e. \<not> isSubmit e) evs" "max 1 (int minutes * 60) \<le> int (ticks evs)"
  proof -
    from that(2) have "max 1 (timeLeft ?t0) \<le> int (ticks evs)" by (simp add: tl0)
    from run_expires [OF assms that(1) this] show ?thesis
      by (auto simp add: isExpired_def)
  qed
  have e: "run later (fst (run evs s)) = (fst (run evs s), [])"
    if "testInterface (fst (run evs s)) = None"
    using that by (rule run_unmounted)
  from a b c d e show ?thesis by blast
qed

theorem timer_countdown_witness:
  "testInterface exampleSystem = Some (mountTestInterface exampleQuestions 1)
   \<and> (\<exists>t. testInterface (fst (run exampleEvents exampleSystem)) = Some t \<and> timeLeft t = 58)
   \<and> length (filter isExpired (snd (run exampleTicks exampleSystem))) = 1
   \<and> testInterface (fst (run exampleTicks exampleSystem)) = None"
proof -
  have h: "testInterface exampleSystem = Some (mountTestInterface exampleQuestions 1)"
    by code_simp
  have quiet: "list_all (\<lambda>e. \<not> isSubmit e) exampleEvents" "list_all (\<lambda>e. \<not> isSubmit e) exampleTicks"
    by code_simp+
  have n: "ticks exampleEvents = 2" "ticks exampleTicks = 60"
    by code_simp+
  from timer_countdown [OF h, of exampleEvents] timer_countdown [OF h, of exampleTicks] h quiet n
  show ?thesis by simp
qed

text \<open>
  While a session that started with a non-empty question list is running, the
  \<open>timeSpentSeconds\<close> of the response table add up to the number of ticks so far,
  whatever other events came between them; and the next tick, the expiring one included,
  adds one second to the entry of the question at the current position and leaves every
  other entry as it is.
\<close>

lemma running_session_accounting:
  assumes "testInterface s = Some (mountTestInterface (questions (app s)) minutes)"
    and "questions (app s) \<noteq> []"
  shows "\<forall>t. testInterface (fst (run evs s)) = Some t \<longrightarrow>
           totalTimeSpent (responses t) = ticks evs
           \<and> totalTimeSpent (responses (fst (tick (questions (app s)) t))) = ticks evs + 1
           \<and> (\<forall>k. map_of (responses (fst (tick (questions (app s)) t))) k =
                 (if k = qid (questions (app s) ! currentIndex t)
                  then map_option (\<lambda>r. r\<lparr>timeSpentSeconds := timeSpentSeconds r + 1\<rparr>)
                         (map_of (responses t) k)
                  else map_of (responses t) k))"
proof (intro allI impI)
  fix t
  assume live: "testInterface (fst (run evs s)) = Some t"
  let ?qs = "questions (app s)"
  have wf0: "wellFormed ?qs (mountTestInterface ?qs minutes)"
    using assms(2) by (rule mount_wellFormed)
  have zero: "totalTimeSpent (responses (mountTestInterface ?qs minutes)) = 0"
    by (simp add: mountTestInterface_def initialResponses_totalTimeSpent)
  from run_accounting [OF assms(1) wf0 live] zero
  have sum: "totalTimeSpent (responses t) = ticks evs" and wf: "wellFormed ?qs t"
    by simp_all
  from wf have idx: "currentIndex t < length ?qs"
    by (simp add: wellFormed_def)
  show "totalTimeSpent (responses t) = ticks evs
      \<and> totalTimeSpent (responses (fst (tick ?qs t))) = ticks evs + 1
      \<and> (\<forall>k. map_of (responses (fst (tick ?qs t))) k =
            (if k = qid (?qs ! currentIndex t)
             then map_option (\<lambda>r. r\<lparr>timeSpentSeconds := timeSpentSeconds r + 1\<rparr>)
                    (map_of (responses t) k)
             else map_of (responses t) k))"
    using sum tick_totalTimeSpent [OF wf] tick_credits_current [OF idx] by simp
qed

lemma running_session_accounting_example:
  "testInterface exampleSystem = Some (mountTestInterface (questions (app exampleSystem)) 1)
   \<and> questions (app exampleSystem) \<noteq> []
   \<and> (\<exists>t. testInterface (fst (run exampleEvents exampleSystem)) = Some t
         \<and> totalTimeSpent (responses t) = 2)"
proof -
  have h: "testInterface exampleSystem = Some (mountTestInterface (questions (app exampleSystem)) 1)"
    by code_simp
  have ne: "questions (app exampleSystem) \<noteq> []"
    by code_simp
  have n: "ticks exampleEvents = 2"
    by code_simp
  have live: "testInterface (fst (run exampleEvents exampleSystem)) \<noteq> None"
    by code_simp
  from running_session_accounting [OF h ne, of exampleEvents] h ne n live
  show ?thesis by auto
qed

section \<open>The result report\<close>

lemma analyzeQuestion_snd: "snd (analyzeQuestion rs q t) = grade rs q"
  by (simp add: grade_def analyzeQuestion_def Let_def split: option.splits)

lemma analyzeQuestion_correct:
  "correct (fst (analyzeQuestion rs q t)) = correct t + (if grade rs q = Correct then 1 else 0)"
  by (simp add: grade_def analyzeQuestion_def Let_def split: option.splits)

lemma analyzeQuestion_incorrect:
  "incorrect (fst (analyzeQuestion rs q t)) = incorrect t + (if grade rs q = Wrong then 1 else 0)"
  by (simp add: grade_def analyzeQuestion_def Let_def split: option.splits)

lemma analyzeQuestion_unattempted:
  "unattempted (fst (analyzeQuestion rs q t)) = unattempted t + (if grade rs q = Skipped then 1 else 0)"
  by (simp add: grade_def analyzeQuestion_def Let_def split: option.splits)

lemma analyzeQuestion_score:
  "score (fst (analyzeQuestion rs q t)) =
     score t + (if grade rs q = Correct then 4 else if grade rs q = Wrong then - 1 else 0)"
  by (simp add: grade_def analyzeQuestion_def Let_def split: option.splits)

lemma analyzeAll_unfold:
  "analyzeAll rs (q # qs) t =
     (fst (analyzeAll rs qs (fst (analyzeQuestion rs q t))),
      snd (analyzeQuestion rs q t) # snd (analyzeAll rs qs (fst (analyzeQuestion rs q t))))"
  by (simp add: Let_def split: prod.splits)

lemma analyzeAll_snd: "snd (analyzeAll rs qs t) = map (grade rs) qs"
  by (induction qs arbitrary: t) (simp_all add: analyzeAll_unfold analyzeQuestion_snd del: analyzeAll.simps(2))

lemma analyzeAll_correct:
  "correct (fst (analyzeAll rs qs t)) = correct t + countStatus Correct rs qs"
  by (induction qs arbitrary: t)
     (simp_all add: analyzeAll_unfold analyzeQuestion_correct countStatus_def del: analyzeAll.simps(2))

lemma analyzeAll_incorrect:
  "incorrect (fst (analyzeAll rs qs t)) = incorrect t + countStatus Wrong rs qs"
  by (induction qs arbitrary: t)
     (simp_all add: analyzeAll_unfold analyzeQuestion_incorrect countStatus_def del: analyzeAll.simps(2))

lemma analyzeAll_unattempted:
  "unattempted (fst (analyzeAll rs qs t)) = unattempted t + countStatus Skipped rs qs"
  by (induction qs arbitrary: t)
     (simp_all add: analyzeAll_unfold analyzeQuestion_unattempted countStatus_def del: analyzeAll.simps(2))

lemma analyzeAll_score:
  "score (fst (analyzeAll rs qs t)) =
     score t + 4 * int (countStatus Correct rs qs) - int (countStatus Wrong rs qs)"
  by (induction qs arbitrary: t)
     (simp_all add: analyzeAll_unfold analyzeQuestion_score countStatus_def del: analyzeAll.simps(2))

lemma countStatus_total:
  "countStatus Correct rs qs + countStatus Wrong rs qs + countStatus Skipped rs qs = length qs"
proof (induction qs)
  case Nil
  then show ?case by (simp add: countStatus_def)
next
  case (Cons q qs)
  then show ?case by (cases "grade rs q") (simp_all add: countStatus_def)
qed

lemma ResultScreen_tally: "tally (ResultScreen qs rs) = fst (analyzeAll rs qs tally0)"
  by (simp add: ResultScreen_def Let_def split: prod.splits)

lemma ResultScreen_analyzed: "analyzedQuestions (ResultScreen qs rs) = map (grade rs) qs"
proof -
  have "analyzedQuestions (ResultScreen qs rs) = snd (analyzeAll rs qs tally0)"
    by (simp add: ResultScreen_def Let_def split: prod.splits)
  then show ?thesis by (simp add: analyzeAll_snd)
qed

lemma ResultScreen_correct: "correct (tally (ResultScreen qs rs)) = countStatus Correct rs qs"
  by (simp add: ResultScreen_tally analyzeAll_correct tally0_def)

lemma ResultScreen_incorrect: "incorrect (tally (ResultScreen qs rs)) = countStatus Wrong rs qs"
  by (simp add: ResultScreen_tally analyzeAll_incorrect tally0_def)

lemma ResultScreen_unattempted: "unattempted (tally (ResultScreen qs rs)) = countStatus Skipped rs qs"
  by (simp add: ResultScreen_tally analyzeAll_unattempted tally0_def)

lemma ResultScreen_score:
  "score (tally (ResultScreen qs rs)) = 4 * int (countStatus Correct rs qs) - int (countStatus Wrong rs qs)"
  by (simp add: ResultScreen_tally analyzeAll_score tally0_def)

lemma ResultScreen_attempted:
  "attempted (ResultScreen qs rs) = countStatus Correct rs qs + countStatus Wrong rs qs"
  by (simp add: ResultScreen_def Let_def ResultScreen_correct [symmetric]
        ResultScreen_incorrect [symmetric] ResultScreen_tally split: prod.splits)

lemma ResultScreen_maxScore: "maxScore (ResultScreen qs rs) = length qs * 4"
  by (simp add: ResultScreen_def Let_def split: prod.splits)

lemma ResultScreen_totalQuestions: "totalQuestions (ResultScreen qs rs) = length qs"
  by (simp add: ResultScreen_def Let_def split: prod.splits)

lemma ResultScreen_accuracy:
  "accuracy (ResultScreen qs rs) =
     (if countStatus Correct rs qs + countStatus Wrong rs qs = 0 then 0
      else Math_round (fmul (fdiv (of_nat (countStatus Correct rs qs))
                                  (of_nat (countStatus Correct rs qs + countStatus Wrong rs qs))) 100))"
  by (simp add: ResultScreen_def Let_def ResultScreen_correct [symmetric]
        ResultScreen_incorrect [symmetric] ResultScreen_tally split: prod.splits)

lemma accuracy_10_of_13: "Math_round (fmul (fdiv 10 13) 100) = 77"
  by code_simp

text \<open>
  C4, amended. The counters are the numbers of questions graded correct, wrong and
  skipped, and they add up to the number of questions. The score is 4 times the correct
  ones minus 1 times the wrong ones, \<open>maxScore\<close> is 4 times the number of questions,
  \<open>attempted\<close> is correct plus wrong. The accuracy is 0 without attempts; otherwise it is
  \<open>Math.round\<close> of the double-precision product of 100 with the double-precision quotient
  of correct by attempted, a number from 0 to 100 that differs by at most 1 from the
  exactly rounded percentage. Fifteen questions with 10 correct and 3 wrong answers leave 2
  unattempted and give score 37, \<open>maxScore\<close> 60, 13 attempted and accuracy 77.
\<close>

theorem scoring_formula:
  "correct (tally (ResultScreen qs rs)) = countStatus Correct rs qs
   \<and> incorrect (tally (ResultScreen qs rs)) = countStatus Wrong rs qs
   \<and> unattempted (tally (ResultScreen qs rs)) = countStatus Skipped rs qs
   \<and> countStatus Correct rs qs + countStatus Wrong rs qs + countStatus Skipped rs qs = length qs
   \<and> score (tally (ResultScreen qs rs)) =
       4 * int (countStatus Correct rs qs) - 1 * int (countStatus Wrong rs qs)
   \<and> maxScore (ResultScreen qs rs) = length qs * 4
   \<and> attempted (ResultScreen qs rs) = countStatus Correct rs qs + countStatus Wrong rs qs
   \<and> accuracy (ResultScreen qs rs) =
       (if attempted (ResultScreen qs rs) = 0 then 0
        else Math_round (fmul (fdiv (of_nat (countStatus Correct rs qs))
                                    (of_nat (attempted (ResultScreen qs rs)))) 100))
   \<and> \<bar>accuracy (ResultScreen qs rs)
        - spec_accuracy (countStatus Correct rs qs) (attempted (ResultScreen qs rs))\<bar> \<le> 1
   \<and> 0 \<le> accuracy (ResultScreen qs rs) \<and> accuracy (ResultScreen qs rs) \<le> 100
   \<and> (length qs = 15 \<and> countStatus Correct rs qs = 10 \<and> countStatus Wrong rs qs = 3 \<longrightarrow>
        countStatus Skipped rs qs = 2
        \<and> score (tally (ResultScreen qs rs)) = 37 \<and> maxScore (ResultScreen qs rs) = 60
        \<and> attempted (ResultScreen qs rs) = 13 \<and> accuracy (ResultScreen qs rs) = 77)"
proof -
  let ?c = "countStatus Correct rs qs"
  let ?a = "countStatus Correct rs qs + countStatus Wrong rs qs"
  have ex: "countStatus Skipped rs qs = 2
        \<and> score (tally (ResultScreen qs rs)) = 37 \<and> maxScore (ResultScreen qs rs) = 60
        \<and> attempted (ResultScreen qs rs) = 13 \<and> accuracy (ResultScreen qs rs) = 77"
    if "length qs = 15" "countStatus Correct rs qs = 10" "countStatus Wrong rs qs = 3"
    using that countStatus_total [of rs qs]
    by (simp add: ResultScreen_score ResultScreen_maxScore ResultScreen_attempted
          ResultScreen_accuracy accuracy_10_of_13)
  have near: "\<bar>accuracy (ResultScreen qs rs) - spec_accuracy ?c ?a\<bar> \<le> 1
      \<and> 0 \<le> accuracy (ResultScreen qs rs) \<and> accuracy (ResultScreen qs rs) \<le> 100"
  proof (cases "?a = 0")
    case True
    then show ?thesis
      by (simp add: ResultScreen_accuracy spec_accuracy_def)
  next
    case False
    then have "0 < ?a" "?c \<le> ?a" by simp_all
    from percent_accuracy [OF this] False show ?thesis
      by (simp only: ResultScreen_accuracy if_False)
  qed
  show ?thesis
    using ex near
    by (simp add: ResultScreen_correct ResultScreen_incorrect ResultScreen_unattempted
          countStatus_total ResultScreen_score ResultScreen_maxScore ResultScreen_attempted
          ResultScreen_accuracy)
qed

theorem scoring_formula_witness:
  "length (questionSheet 15) = 15
   \<and> countStatus Correct (answerSheet 15 10 3) (questionSheet 15) = 10
   \<and> countStatus Wrong (answerSheet 15 10 3) (questionSheet 15) = 3
   \<and> score (tally (ResultScreen (questionSheet 15) (answerSheet 15 10 3))) = 37
   \<and> maxScore (ResultScreen (questionSheet 15) (answerSheet 15 10 3)) = 60
   \<and> attempted (ResultScreen (questionSheet 15) (answerSheet 15 10 3)) = 13
   \<and> accuracy (ResultScreen (questionSheet 15) (answerSheet 15 10 3)) = 77"
proof -
  have n: "length (questionSheet 15) = 15"
    by (simp add: questionSheet_def)
  have c: "countStatus Correct (answerSheet 15 10 3) (questionSheet 15) = 10"
    by code_simp
  have w: "countStatus Wrong (answerSheet 15 10 3) (questionSheet 15) = 3"
    by code_simp
  from scoring_formula [of "questionSheet 15" "answerSheet 15 10 3"] n c w
  show ?thesis by (simp add: accuracy_10_of_13)
qed

text \<open>
  C4 as stated fails: with 23 correct answers among 40 attempts the exact percentage is
  57.5, which rounds to 58, but the double-precision product is just below 57.5 and the
  reported accuracy is 57.
\<close>

theorem accuracy_rounding_counterexample:
  "correct (tally (ResultScreen (questionSheet 40) (answerSheet 40 23 17))) = 23
   \<and> attempted (ResultScreen (questionSheet 40) (answerSheet 40 23 17)) = 40
   \<and> accuracy (ResultScreen (questionSheet 40) (answerSheet 40 23 17)) = 57
   \<and> spec_accuracy 23 40 = 58"
proof -
  have c: "countStatus Correct (answerSheet 40 23 17) (questionSheet 40) = 23"
    by code_simp
  have w: "countStatus Wrong (answerSheet 40 23 17) (questionSheet 40) = 17"
    by code_simp
  have a: "Math_round (fmul (fdiv 23 40) 100) = 57"
    by code_simp
  have s: "spec_accuracy 23 40 = 58"
    by code_simp
  show ?thesis
    by (simp add: ResultScreen_correct ResultScreen_attempted ResultScreen_accuracy c w a s)
qed

section \<open>The answer check\<close>

lemma grade_cases:
  "grade rs q =
     (case find (\<lambda>r. questionId r = qid q) rs of
        None \<Rightarrow> Skipped
      | Some r \<Rightarrow> (case selectedOption r of
                     None \<Rightarrow> Skipped
                   | Some sel \<Rightarrow> if isCorrect q sel then Correct else Wrong))"
  by (simp add: grade_def analyzeQuestion_def Let_def split: option.splits)

lemma trim_54_space: "trim ''5.4 '' = ''5.4''"
  by code_simp

lemma trim_54: "trim ''5.4'' = ''5.4''"
  by code_simp

lemma trim_540: "trim ''5.40'' = ''5.40''"
  by code_simp

text \<open>\<open>trim\<close> removes white space at both ends and nothing else.\<close>

lemma trim_clean:
  "s \<noteq> [] \<Longrightarrow> \<not> isWhiteSpace (hd s) \<Longrightarrow> \<not> isWhiteSpace (last s) \<Longrightarrow> trim s = s"
proof -
  assume ne: "s \<noteq> []" and h: "\<not> isWhiteSpace (hd s)" and l: "\<not> isWhiteSpace (last s)"
  from ne h have "dropWhile isWhiteSpace s = s"
    by (cases s) simp_all
  moreover from ne l have "dropWhile isWhiteSpace (rev s) = rev s"
    by (cases "rev s") (simp_all add: last_rev [symmetric] del: last_rev)
  ultimately show ?thesis by (simp add: trim_def)
qed

lemma trim_surrounded:
  "list_all isWhiteSpace a \<Longrightarrow> list_all isWhiteSpace b \<Longrightarrow> trim (a @ s @ b) = trim s"
proof -
  assume a: "list_all isWhiteSpace a" and b: "list_all isWhiteSpace b"
  have drop_all: "dropWhile isWhiteSpace (w @ u) = dropWhile isWhiteSpace u"
    if "list_all isWhiteSpace w" for w u
    using that by (induction w) simp_all
  have "dropWhile isWhiteSpace (a @ s @ b) = dropWhile isWhiteSpace (s @ b)"
    using a by (rule drop_all)
  moreover have "rev (dropWhile isWhiteSpace (rev (dropWhile isWhiteSpace (s @ b))))
      = rev (dropWhile isWhiteSpace (rev (dropWhile isWhiteSpace s)))"
  proof (cases "list_all isWhiteSpace s")
    case True
    then have e: "dropWhile isWhiteSpace (s @ b) = []" "dropWhile isWhiteSpace s = []"
      using b by (simp_all add: list_all_iff dropWhile_eq_Nil_conv)
    show ?thesis by (simp only: e)
  next
    case False
    then have "dropWhile isWhiteSpace (s @ b) = dropWhile isWhiteSpace s @ b"
      by (auto simp add: list_all_iff dropWhile_append1)
    moreover have "list_all isWhiteSpace (rev b)"
      using b by (simp add: list_all_iff)
    ultimately show ?thesis
      using drop_all [of "rev b" "rev (dropWhile isWhiteSpace s)"] by simp
  qed
  ultimately show ?thesis by (simp add: trim_def)
qed

text \<open>
  C7. A NUMERICAL question is graded correct exactly when the first response with its id
  has a selection whose trimmed text equals the trimmed \<open>correctAnswer\<close>. Against the
  correct answer "5.4" the response "5.4 " is correct and the response "5.40" is wrong.
\<close>

theorem numerical_match:
  assumes "qtype q = NUMERICAL"
  shows "(grade rs q = Correct \<longleftrightarrow>
            (\<exists>r sel. find (\<lambda>r. questionId r = qid q) rs = Some r
                    \<and> selectedOption r = Some sel
                    \<and> trim sel = trim (correctAnswer q)))
       \<and> (correctAnswer q = ''5.4'' \<and> questionId r = qid q \<longrightarrow>
            grade (r\<lparr>selectedOption := Some ''5.4 ''\<rparr> # rs) q = Correct
            \<and> grade (r\<lparr>selectedOption := Some ''5.40''\<rparr> # rs) q = Wrong)"
  using assms
  by (auto simp add: grade_cases isCorrect_def trim_54_space trim_54 trim_540
        split: option.splits)

theorem numerical_match_witness:
  "qtype (exampleQuestion 1 NUMERICAL ''5.4'') = NUMERICAL
   \<and> grade [(exampleResponse 1 None)\<lparr>selectedOption := Some ''5.4 ''\<rparr>]
        (exampleQuestion 1 NUMERICAL ''5.4'') = Correct
   \<and> grade [(exampleResponse 1 None)\<lparr>selectedOption := Some ''5.40''\<rparr>]
        (exampleQuestion 1 NUMERICAL ''5.4'') = Wrong"
proof -
  let ?q = "exampleQuestion 1 NUMERICAL ''5.4''"
  have t: "qtype ?q = NUMERICAL" and a: "correctAnswer ?q = ''5.4''"
    by (simp_all add: exampleQuestion_def)
  have i: "questionId (exampleResponse 1 None) = qid ?q"
    by (simp add: exampleResponse_def exampleQuestion_def)
  from numerical_match [OF t, of "[]" "exampleResponse 1 None"] t a i
  show ?thesis by simp
qed

section \<open>The verdict\<close>

lemma find_first:
  "i < length xs \<Longrightarrow> P (xs ! i) \<Longrightarrow> (\<And>j. j < i \<Longrightarrow> \<not> P (xs ! j)) \<Longrightarrow> find P xs = Some (xs ! i)"
proof (induction xs arbitrary: i)
  case Nil
  then show ?case by simp
next
  case (Cons x xs)
  show ?case
  proof (cases i)
    case 0
    with Cons.prems show ?thesis by simp
  next
    case (Suc k)
    with Cons.prems(3) [of 0] have "\<not> P x" by simp
    moreover have "find P xs = Some (xs ! k)"
    proof (rule Cons.IH)
      show "k < length xs" using Cons.prems(1) Suc by simp
      show "P (xs ! k)" using Cons.prems(2) Suc by simp
      show "\<not> P (xs ! j)" if "j < k" for j
        using Cons.prems(3) [of "Suc j"] that Suc by simp
    qed
    ultimately show ?thesis using Suc by simp
  qed
qed

lemma getVerdict_classify: "getVerdict r = spec_classify r"
  by (simp add: getVerdict_def spec_classify_def spec_bands_def)

text \<open>
  C8. \<open>getVerdict\<close> is the first-match classification over the ordered bands perfect
  score, high accuracy and high score, high accuracy and low score, low accuracy with a
  high attempt rate, negative score: a report is given the verdict of the earliest band
  whose condition it meets, whatever later bands it also meets, and the default verdict
  when it meets none.
\<close>

theorem verdict_first_match:
  "getVerdict r = spec_classify r
   \<and> map snd spec_bands =
       [Godlike, Excellent_Performance, Cautious_Sniper, Guesswork_Hazard, Critical_Condition]
   \<and> (\<forall>i < length spec_bands.
         fst (spec_bands ! i) r \<and> (\<forall>j < i. \<not> fst (spec_bands ! j) r) \<longrightarrow>
         getVerdict r = snd (spec_bands ! i))
   \<and> ((\<forall>b \<in> set spec_bands. \<not> fst b r) \<longrightarrow> getVerdict r = Balanced_Effort)"
proof -
  have first: "getVerdict r = snd (spec_bands ! i)"
    if "i < length spec_bands" "fst (spec_bands ! i) r" "\<forall>j < i. \<not> fst (spec_bands ! j) r" for i
  proof -
    have "find (\<lambda>b. fst b r) spec_bands = Some (spec_bands ! i)"
      using that by (intro find_first) simp_all
    then show ?thesis by (simp add: getVerdict_classify spec_classify_def)
  qed
  have none: "getVerdict r = Balanced_Effort" if "\<forall>b \<in> set spec_bands. \<not> fst b r"
  proof -
    from that have "find (\<lambda>b. fst b r) spec_bands = None"
      by (auto simp add: find_None_iff)
    then show ?thesis by (simp add: getVerdict_classify spec_classify_def)
  qed
  have order: "map snd spec_bands =
       [Godlike, Excellent_Performance, Cautious_Sniper, Guesswork_Hazard, Critical_Condition]"
    by (simp add: spec_bands_def)
  from first none order getVerdict_classify show ?thesis by blast
qed

theorem verdict_first_match_witness:
  "fst (spec_bands ! 3) (ResultScreen (questionSheet 5) (answerSheet 5 0 5))
   \<and> fst (spec_bands ! 4) (ResultScreen (questionSheet 5) (answerSheet 5 0 5))
   \<and> getVerdict (ResultScreen (questionSheet 5) (answerSheet 5 0 5)) = Guesswork_Hazard"
proof -
  let ?r = "ResultScreen (questionSheet 5) (answerSheet 5 0 5)"
  have b0: "\<not> fst (spec_bands ! 0) ?r" by code_simp
  have b1: "\<not> fst (spec_bands ! 1) ?r" by code_simp
  have b2: "\<not> fst (spec_bands ! 2) ?r" by code_simp
  have b3: "fst (spec_bands ! 3) ?r" by code_simp
  have b4: "fst (spec_bands ! 4) ?r" by code_simp
  have earlier: "\<forall>j < 3. \<not> fst (spec_bands ! j) ?r"
  proof (intro allI impI)
    fix j :: nat
    assume "j < 3"
    then consider "j = 0" | "j = 1" | "j = 2" by linarith
    then show "\<not> fst (spec_bands ! j) ?r"
      using b0 b1 b2 by cases simp_all
  qed
  have len: "(3::nat) < length spec_bands" and v: "snd (spec_bands ! 3) = Guesswork_Hazard"
    by (simp_all add: spec_bands_def)
  from verdict_first_match [of ?r]
  have "\<forall>i < length spec_bands.
         fst (spec_bands ! i) ?r \<and> (\<forall>j < i. \<not> fst (spec_bands ! j) ?r) \<longrightarrow>
         getVerdict ?r = snd (spec_bands ! i)"
    by blast
  with len b3 earlier have "getVerdict ?r = snd (spec_bands ! 3)"
    by blast
  with v b3 b4 show ?thesis by simp
qed

section \<open>The history summary\<close>

lemma historyStep_grade:
  "historyStep rs acc q =
     (fst acc + (if grade rs q = Correct then 1 else 0),
      snd acc + (if grade rs q = Correct then 4 else if grade rs q = Wrong then - 1 else 0))"
  by (simp add: historyStep_def grade_cases split: option.splits)

lemma foldl_historyStep:
  "foldl (historyStep rs) acc qs =
     (fst acc + countStatus Correct rs qs,
      snd acc + 4 * int (countStatus Correct rs qs) - int (countStatus Wrong rs qs))"
  by (induction qs arbitrary: acc) (simp_all add: historyStep_grade countStatus_def)

lemma historyTally_counts:
  "historyTally qs rs =
     (countStatus Correct rs qs, 4 * int (countStatus Correct rs qs) - int (countStatus Wrong rs qs))"
  by (simp add: historyTally_def foldl_historyStep)

lemma find_distinct:
  "distinct (map f xs) \<Longrightarrow> x \<in> set xs \<Longrightarrow> find (\<lambda>y. f y = f x) xs = Some x"
  by (induction xs) (auto simp add: image_iff)

lemma attempted_not_skipped:
  "countStatus Correct rs qs + countStatus Wrong rs qs = length (filter (\<lambda>q. grade rs q \<noteq> Skipped) qs)"
proof (induction qs)
  case Nil
  then show ?case by (simp add: countStatus_def)
next
  case (Cons q qs)
  then show ?case by (cases "grade rs q") (simp_all add: countStatus_def)
qed

lemma attempted_responses:
  assumes "distinct (map qid qs)" and "mset (map questionId rs) = mset (map qid qs)"
  shows "length (filter (\<lambda>r. selectedOption r \<noteq> None) rs) =
           countStatus Correct rs qs + countStatus Wrong rs qs"
proof -
  define sel where
    "sel k = (case find (\<lambda>r. questionId r = k) rs of
                None \<Rightarrow> False | Some r \<Rightarrow> selectedOption r \<noteq> None)" for k
  have graded: "grade rs q \<noteq> Skipped \<longleftrightarrow> sel (qid q)" for q
    by (simp add: grade_cases sel_def split: option.splits)
  from assms have dist: "distinct (map questionId rs)"
    by (metis mset_eq_imp_distinct_iff)
  have own: "sel (questionId r) \<longleftrightarrow> selectedOption r \<noteq> None" if "r \<in> set rs" for r
    using find_distinct [OF dist that] by (simp add: sel_def)
  have "countStatus Correct rs qs + countStatus Wrong rs qs = length (filter (\<lambda>q. sel (qid q)) qs)"
    by (simp add: attempted_not_skipped graded)
  also have "\<dots> = length (filter sel (map qid qs))"
    by (simp add: filter_map comp_def)
  also have "\<dots> = size (filter_mset sel (mset (map qid qs)))"
    by (simp only: mset_filter [symmetric] size_mset)
  also have "\<dots> = size (filter_mset sel (mset (map questionId rs)))"
    by (simp only: assms(2))
  also have "\<dots> = length (filter sel (map questionId rs))"
    by (simp only: mset_filter [symmetric] size_mset)
  also have "\<dots> = length (filter (\<lambda>r. sel (questionId r)) rs)"
    by (simp add: filter_map comp_def)
  also have "\<dots> = length (filter (\<lambda>r. selectedOption r \<noteq> None) rs)"
    using own by (simp cong: filter_cong)
  finally show ?thesis by simp
qed

lemma handleTestFinish_history:
  "testHistory (handleTestFinish clk rs a) = take 50 (historyItem clk rs a # testHistory a)"
  by (simp add: handleTestFinish_def saveHistory_def Let_def)

lemma historyItem_questions:
  "historyItem clk rs (a\<lparr>app_responses := x\<rparr>) = historyItem clk rs a"
  by (simp add: historyItem_def)

lemma handleTestFinish_responses: "app_responses (handleTestFinish clk rs a) = rs"
  by (simp add: handleTestFinish_def saveHistory_def Let_def)

lemma handleTestFinish_questions: "questions (handleTestFinish clk rs a) = questions a"
  by (simp add: handleTestFinish_def saveHistory_def Let_def)

text \<open>
  C10. When the question ids are pairwise distinct and the response list has exactly one
  response for each of them and no other, the score and the accuracy of the history
  summary equal those of the result report on the same questions and responses; so do
  the fields of the history entry that \<open>handleTestFinish\<close> stores and the report on the
  state it leaves.
\<close>

theorem history_summary_agrees:
  assumes "distinct (map qid (questions a))"
    and "mset (map questionId rs) = mset (map qid (questions a))"
  shows "snd (historyTally (questions a) rs) = score (tally (ResultScreen (questions a) rs))
       \<and> historyAccuracy (questions a) rs = accuracy (ResultScreen (questions a) rs)
       \<and> hscore (hd (testHistory (handleTestFinish clk rs a))) =
           score (tally (ResultScreen (questions (handleTestFinish clk rs a))
                                      (app_responses (handleTestFinish clk rs a))))
       \<and> haccuracy (hd (testHistory (handleTestFinish clk rs a))) =
           accuracy (ResultScreen (questions (handleTestFinish clk rs a))
                                  (app_responses (handleTestFinish clk rs a)))
       \<and> hmaxScore (hd (testHistory (handleTestFinish clk rs a))) =
           maxScore (ResultScreen (questions (handleTestFinish clk rs a))
                                  (app_responses (handleTestFinish clk rs a)))"
proof -
  let ?qs = "questions a"
  have sc: "snd (historyTally ?qs rs) = score (tally (ResultScreen ?qs rs))"
    by (simp add: historyTally_counts ResultScreen_score)
  have acc: "historyAccuracy ?qs rs = accuracy (ResultScreen ?qs rs)"
    using attempted_responses [OF assms]
    by (simp add: historyAccuracy_def Let_def historyTally_counts ResultScreen_accuracy)
  have item: "hd (testHistory (handleTestFinish clk rs a)) = historyItem clk rs a"
    by (simp add: handleTestFinish_history)
  show ?thesis
    using sc acc
    by (simp add: item handleTestFinish_responses handleTestFinish_questions historyItem_def
          ResultScreen_maxScore)
qed

theorem history_summary_agrees_witness:
  "distinct (map qid (questionSheet 15))
   \<and> mset (map questionId (answerSheet 15 10 3)) = mset (map qid (questionSheet 15))
   \<and> snd (historyTally (questionSheet 15) (answerSheet 15 10 3)) = 37
   \<and> historyAccuracy (questionSheet 15) (answerSheet 15 10 3) = 77"
proof -
  let ?a = "exampleApp\<lparr>questions := questionSheet 15\<rparr>"
  have q: "questions ?a = questionSheet 15" by simp
  have d: "distinct (map qid (questionSheet 15))"
    by code_simp
  have "map questionId (answerSheet 15 10 3) = map qid (questionSheet 15)"
    by code_simp
  then have m: "mset (map questionId (answerSheet 15 10 3)) = mset (map qid (questionSheet 15))"
    by simp
  have s: "score (tally (ResultScreen (questionSheet 15) (answerSheet 15 10 3))) = 37"
    by code_simp
  have c: "accuracy (ResultScreen (questionSheet 15) (answerSheet 15 10 3)) = 77"
    by code_simp
  from history_summary_agrees [of ?a "answerSheet 15 10 3" exampleClock] d m s c
  show ?thesis by (simp only: q)
qed

section \<open>Selections\<close>

text \<open>What the two input handlers do to the entry of the current question.\<close>

lemma map_entry_lookup:
  "map_of (AList.map_entry k f tbl) k = map_option f (map_of tbl k)"
  by (simp add: map_of_map_entry split: option.splits)

lemma handleOptionSelect_entry:
  "elem qs (currentIndex t) = Some q \<Longrightarrow>
   map_of (responses (handleOptionSelect qs v t)) (qid q) =
     map_option (\<lambda>r. r\<lparr>selectedOption := Some v,
                        status := (if status r = MARKED_FOR_REVIEW then ANSWERED_AND_MARKED
                                   else ANSWERED)\<rparr>)
       (map_of (responses t) (qid q))"
  by (simp add: handleOptionSelect_def map_entry_lookup selectStatus_def)

lemma handleNumericalInput_empty_entry:
  "elem qs (currentIndex t) = Some q \<Longrightarrow>
   map_of (responses (handleNumericalInput qs [] t)) (qid q) =
     map_option (\<lambda>r. r\<lparr>selectedOption := Some [], status := NOT_ANSWERED\<rparr>)
       (map_of (responses t) (qid q))"
  by (simp add: handleNumericalInput_def map_entry_lookup)

text \<open>
  C1, at a failing input. In a test of one NUMERICAL question with correct answer "5",
  typing "5" and deleting it again leaves the selection at the empty string, not absent,
  with status NOT_ANSWERED; the report on the submitted test counts the question as
  incorrect and the score is -1. On a question marked for review, empty text sets the
  status to NOT_ANSWERED and the mark is gone.
\<close>

theorem empty_numerical_input_scored:
  "liveResponses (fst (run [NumericalInput ''5'', NumericalInput []]
                       (singleQuestionSystem (exampleQuestion 0 NUMERICAL ''5'')))) =
     Some [\<lparr>questionId = ''q-0'', selectedOption = Some [], status = NOT_ANSWERED,
            timeSpentSeconds = 0\<rparr>]
   \<and> tally (finalReport (fst (run [NumericalInput ''5'', NumericalInput [], SubmitTest exampleClock]
                                (singleQuestionSystem (exampleQuestion 0 NUMERICAL ''5''))))) =
       \<lparr>correct = 0, incorrect = 1, score = - 1, unattempted = 0, totalTime = 0\<rparr>
   \<and> liveResponses (fst (run [MarkForReview]
                          (singleQuestionSystem (exampleQuestion 0 NUMERICAL ''5'')))) =
       Some [\<lparr>questionId = ''q-0'', selectedOption = None, status = MARKED_FOR_REVIEW,
              timeSpentSeconds = 0\<rparr>]
   \<and> liveResponses (fst (run [MarkForReview, NumericalInput []]
                          (singleQuestionSystem (exampleQuestion 0 NUMERICAL ''5'')))) =
       Some [\<lparr>questionId = ''q-0'', selectedOption = Some [], status = NOT_ANSWERED,
              timeSpentSeconds = 0\<rparr>]"
  by code_simp

text \<open>
  C2, at a failing input. In a test of one MCQ question, marking and then selecting "1"
  gives ANSWERED_AND_MARKED; selecting "2" in that state gives ANSWERED, and the mark is
  gone. Typing "12" into a marked NUMERICAL question goes through the same two steps.
\<close>

theorem reselect_drops_mark:
  "liveResponses (fst (run [MarkForReview, OptionSelect ''1'']
                       (singleQuestionSystem (exampleQuestion 0 MCQ ''1'')))) =
     Some [\<lparr>questionId = ''q-0'', selectedOption = Some ''1'', status = ANSWERED_AND_MARKED,
            timeSpentSeconds = 0\<rparr>]
   \<and> liveResponses (fst (run [MarkForReview, OptionSelect ''1'', OptionSelect ''2'']
                          (singleQuestionSystem (exampleQuestion 0 MCQ ''1'')))) =
       Some [\<lparr>questionId = ''q-0'', selectedOption = Some ''2'', status = ANSWERED,
              timeSpentSeconds = 0\<rparr>]
   \<and> liveResponses (fst (run [MarkForReview, NumericalInput ''1'', NumericalInput ''12'']
                          (singleQuestionSystem (exampleQuestion 0 NUMERICAL ''12'')))) =
       Some [\<lparr>questionId = ''q-0'', selectedOption = Some ''12'', status = ANSWERED,
              timeSpentSeconds = 0\<rparr>]"
  by code_simp

section \<open>Finishing\<close>









section \<open>Starting a test\<close>

lemma map_entry_keys_list: "map fst (AList.map_entry k f tbl) = map fst tbl"
  by (induction tbl) simp_all

lemma update_blank_keys_list:
  "distinct (map fst tbl0 @ map qid qs) \<Longrightarrow>
   map fst (foldl (\<lambda>tbl q. AList.update (qid q) (blankResponse (qid q)) tbl) tbl0 qs) =
     map fst tbl0 @ map qid qs"
proof (induction qs arbitrary: tbl0)
  case Nil
  then show ?case by simp
next
  case (Cons q qs)
  from Cons.prems have fresh: "qid q \<notin> fst ` set tbl0"
    by auto
  then have keys: "map fst (AList.update (qid q) (blankResponse (qid q)) tbl0) = map fst tbl0 @ [qid q]"
    by (simp add: update_keys)
  have "distinct (map fst (AList.update (qid q) (blankResponse (qid q)) tbl0) @ map qid qs)"
    using Cons.prems by (simp add: keys)
  from Cons.IH [OF this] show ?case by (simp add: keys)
qed

lemma initialResponses_keys_list:
  "distinct (map qid qs) \<Longrightarrow> map fst (initialResponses qs) = map qid qs"
  using update_blank_keys_list [of "[]" qs]
  by (cases qs) (simp_all add: initialResponses_def Let_def map_entry_keys_list del: foldl_Cons)

text \<open>
  C9. When the generated question list is empty, \<open>startTest\<close> throws an error, which it
  reports as the message "No questions were generated. Please try again." and by going
  back to the configuration view: no test interface is mounted. For a non-empty list
  with distinct ids the test interface starts at position 0 with a table that has one
  entry per question, in the order of the questions, each without selection and time,
  at NOT_VISITED except the question at position 0, which is at NOT_ANSWERED.
\<close>

theorem initialize_session:
  "error (app (startTest cfg (Inr []) s)) = Some ''No questions were generated. Please try again.''
   \<and> view (app (startTest cfg (Inr []) s)) = Config
   \<and> testInterface (startTest cfg (Inr []) s) = None
   \<and> (qs \<noteq> [] \<longrightarrow>
        view (app (startTest cfg (Inr qs) s)) = Test
        \<and> questions (app (startTest cfg (Inr qs) s)) = qs
        \<and> (\<exists>t. testInterface (startTest cfg (Inr qs) s) = Some t
              \<and> currentIndex t = 0 \<and> responses t = initialResponses qs))
   \<and> (qs \<noteq> [] \<and> distinct (map qid qs) \<longrightarrow>
        map fst (initialResponses qs) = map qid qs
        \<and> (\<forall>i < length qs.
              map_of (initialResponses qs) (qid (qs ! i)) =
                Some \<lparr>questionId = qid (qs ! i), selectedOption = None,
                      status = (if i = 0 then NOT_ANSWERED else NOT_VISITED),
                      timeSpentSeconds = 0\<rparr>))"
proof -
  have empty: "error (app (startTest cfg (Inr []) s)) = Some ''No questions were generated. Please try again.''
     \<and> view (app (startTest cfg (Inr []) s)) = Config
     \<and> testInterface (startTest cfg (Inr []) s) = None"
    by (simp add: startTest_def startTestFailed_def Let_def)
  have started: "view (app (startTest cfg (Inr qs) s)) = Test
        \<and> questions (app (startTest cfg (Inr qs) s)) = qs
        \<and> (\<exists>t. testInterface (startTest cfg (Inr qs) s) = Some t
              \<and> currentIndex t = 0 \<and> responses t = initialResponses qs)"
    if "qs \<noteq> []"
    using that by (simp add: startTest_def Let_def mountTestInterface_def)
  have entry: "map_of (initialResponses qs) (qid (qs ! i)) =
                Some \<lparr>questionId = qid (qs ! i), selectedOption = None,
                      status = (if i = 0 then NOT_ANSWERED else NOT_VISITED),
                      timeSpentSeconds = 0\<rparr>"
    if "qs \<noteq> []" "distinct (map qid qs)" "i < length qs" for i
  proof -
    from that have "qid (qs ! i) = qid (hd qs) \<longleftrightarrow> i = 0"
      using nth_eq_iff_index_eq [of "map qid qs" i 0] by (simp add: hd_conv_nth)
    moreover have "qid (qs ! i) \<in> qid ` set qs"
      using that(3) by simp
    ultimately show ?thesis
      by (simp add: map_of_initialResponses blankResponse_def)
  qed
  from empty started entry initialResponses_keys_list show ?thesis
    by blast
qed

theorem initialize_session_witness:
  "exampleQuestions \<noteq> [] \<and> distinct (map qid exampleQuestions)
   \<and> view (app exampleSystem) = Test
   \<and> map fst (initialResponses exampleQuestions) = [''q-0'', ''q-1'']
   \<and> map_of (initialResponses exampleQuestions) ''q-1'' =
       Some \<lparr>questionId = ''q-1'', selectedOption = None, status = NOT_VISITED,
             timeSpentSeconds = 0\<rparr>"
proof -
  have ne: "exampleQuestions \<noteq> []" and d: "distinct (map qid exampleQuestions)"
    by code_simp+
  have ids: "map qid exampleQuestions = [''q-0'', ''q-1'']"
    by code_simp
  have i: "(1::nat) < length exampleQuestions" and q: "qid (exampleQuestions ! 1) = ''q-1''"
    by code_simp+
  from initialize_session [of "exampleConfig 1" "\<lparr>app = exampleApp, testInterface = None\<rparr>" exampleQuestions]
  have "view (app exampleSystem) = Test"
    and "map fst (initialResponses exampleQuestions) = map qid exampleQuestions"
    and "\<forall>i < length exampleQuestions.
              map_of (initialResponses exampleQuestions) (qid (exampleQuestions ! i)) =
                Some \<lparr>questionId = qid (exampleQuestions ! i), selectedOption = None,
                      status = (if i = 0 then NOT_ANSWERED else NOT_VISITED),
                      timeSpentSeconds = 0\<rparr>"
    using ne d by (simp_all add: exampleSystem_def)
  with ne d ids i q show ?thesis
    by (metis One_nat_def zero_neq_one)
qed

section \<open>The snapshot at the end of a test\<close>

text \<open>
  A submission hands over the current table, whose seconds add up to the ticks of the
  session. The expiring tick hands over the table of the interval callback's closure:
  what was entered after the last change of position, and the seconds counted since, are
  not in it.
\<close>

lemma submit_snapshot:
  assumes "testInterface s = Some (mountTestInterface (questions (app s)) minutes)"
    and "questions (app s) \<noteq> []"
    and "testInterface (fst (run evs s)) = Some t"
  shows "snd (step (SubmitTest clk) (fst (run evs s))) = Some (Submitted (Object_values (responses t)))
       \<and> sum_list (map timeSpentSeconds (Object_values (responses t))) = ticks evs"
proof -
  have wf0: "wellFormed (questions (app s)) (mountTestInterface (questions (app s)) minutes)"
    using assms(2) by (rule mount_wellFormed)
  have zero: "totalTimeSpent (responses (mountTestInterface (questions (app s)) minutes)) = 0"
    by (simp add: mountTestInterface_def initialResponses_totalTimeSpent)
  from run_accounting [OF assms(1) wf0 assms(3)] zero
  have "totalTimeSpent (responses t) = ticks evs" by simp
  then show ?thesis
    using assms(3) by (simp add: step_Submit handleFinishTest_def totalTimeSpent_def)
qed

lemma expiry_snapshot:
  "testInterface s = Some t \<Longrightarrow> timeLeft t \<le> 1 \<Longrightarrow>
   snd (step (Tick clk) s) = Some (Expired (Object_values (timerResponses t)))
   \<and> app_responses (app (fst (step (Tick clk) s))) = Object_values (timerResponses t)"
  by (simp add: step_Tick handleTestFinish_responses)

lemma expiry_snapshot_example:
  "app_responses (app (fst (run (OptionSelect ''1'' # exampleTicks)
                            (singleQuestionSystem (exampleQuestion 0 MCQ ''1''))))) =
     [\<lparr>questionId = ''q-0'', selectedOption = None, status = NOT_ANSWERED,
       timeSpentSeconds = 0\<rparr>]"
  by code_simp

section \<open>The snapshot of an expired test\<close>

text \<open>
  C6, at a failing input. The example test of two questions and one minute receives 60
  ticks and nothing else. The sixtieth tick ends the test and hands over the table held
  by the interval callback's closure, the one of the first render: its
  \<open>timeSpentSeconds\<close> add up to 0, not 60, and the report shows a total time of 0. With
  a move to the second question after the first tick, the table handed over is the one
  of the render after the move and adds up to 1. A submission after 59 ticks hands over
  the current table, which adds up to 59.
\<close>

theorem expiry_loses_ticks:
  "ticks exampleTicks = 60
   \<and> testInterface (fst (run exampleTicks exampleSystem)) = None
   \<and> snd (run exampleTicks exampleSystem) =
       [Expired (app_responses (app (fst (run exampleTicks exampleSystem))))]
   \<and> sum_list (map timeSpentSeconds
                 (app_responses (app (fst (run exampleTicks exampleSystem))))) = 0
   \<and> totalTime (tally (finalReport (fst (run exampleTicks exampleSystem)))) = 0
   \<and> ticks exampleTicksWithMove = 60
   \<and> sum_list (map timeSpentSeconds
                 (app_responses (app (fst (run exampleTicksWithMove exampleSystem))))) = 1
   \<and> sum_list (map timeSpentSeconds
                 (app_responses (app (fst (run (replicate 59 (Tick exampleClock)
                                                @ [SubmitTest exampleClock])
                                               exampleSystem))))) = 59"
  by code_simp

end
